theory Spec2Isabelle
  imports Complex_Main "HOL-Library.Word"
begin

section \<open>Python values\<close>

text \<open>
  A Python \<^verbatim>\<open>str\<close> is a sequence of Unicode code points. A code point is a natural
  number here, so that iterating a string, trimming it and comparing it mean what they
  mean in Python for every text, not only for ASCII. \<open>u\<close> turns an ASCII literal of the
  theory into such a string.
\<close>

type_synonym ustr = "nat list"

definition u :: "string \<Rightarrow> ustr" where
  "u s = map of_char s"

text \<open>
  The value \<^verbatim>\<open>json.loads\<close> returns: \<^verbatim>\<open>None\<close>, a bool, an int, a float, a str, a list or
  a dict with str keys. A float is its IEEE-754 bit pattern; the script only ever tests
  one for truth. A dict is the list of its items in insertion order; a Python dict holds
  every key once, and the lookup takes the first item of a key.
\<close>

datatype json =
    JNull
  | JBool bool
  | JInt int
  | JFloat "64 word"
  | JStr ustr
  | JArr "json list"
  | JObj "(ustr \<times> json) list"

text \<open>
  The exceptions of the script. The first six are raised by the interpreter, by
  python-pptx or by lxml beneath it, \<open>FileNotFoundError\<close> by opening a file that does
  not exist; \<open>External\<close> is an exception of a collaborator
  (the language-model client, the JSON parser, the file system, the document reader)
  and carries its message. All of them are subclasses of \<^verbatim>\<open>Exception\<close>.
\<close>

datatype error =
    AttributeError    \<comment> \<open>\<^verbatim>\<open>.get\<close> on a value that is not a dict, \<^verbatim>\<open>.text\<close> on a shape without text\<close>
  | NotIterable       \<comment> \<open>\<^verbatim>\<open>TypeError: ... object is not iterable\<close>\<close>
  | TextNotStr        \<comment> \<open>python-pptx refuses a text that is not a str\<close>
  | ValueError        \<comment> \<open>lxml refuses a str that XML cannot hold\<close>
  | KeyError          \<comment> \<open>no placeholder of the index asked for\<close>
  | IndexError        \<comment> \<open>\<^verbatim>\<open>paragraphs[0]\<close> of a frame without paragraphs\<close>
  | FileNotFoundError
  | External ustr

text \<open>\<^verbatim>\<open>d.get(k, default)\<close> on a dict, and on any parsed value.\<close>

definition dict_get :: "(ustr \<times> json) list \<Rightarrow> ustr \<Rightarrow> json \<Rightarrow> json" where
  "dict_get d k dflt = (case map_of d k of None \<Rightarrow> dflt | Some v \<Rightarrow> v)"

fun py_get :: "json \<Rightarrow> ustr \<Rightarrow> json \<Rightarrow> error + json" where
  "py_get (JObj d) k dflt = Inr (dict_get d k dflt)"
| "py_get _ k dflt = Inl AttributeError"

text \<open>
  \<^verbatim>\<open>for x in v\<close>: a list gives its elements, a str its characters (each a str of length
  one), a dict its keys; nothing else can be iterated.
\<close>

fun py_iter :: "json \<Rightarrow> error + json list" where
  "py_iter (JArr xs) = Inr xs"
| "py_iter (JStr s) = Inr (map (\<lambda>c. JStr [c]) s)"
| "py_iter (JObj d) = Inr (map (\<lambda>kv. JStr (fst kv)) d)"
| "py_iter _ = Inl NotIterable"

text \<open>Truth value testing, as \<^verbatim>\<open>if v:\<close> does it.\<close>

fun truthy :: "json \<Rightarrow> bool" where
  "truthy JNull = False"
| "truthy (JBool b) = b"
| "truthy (JInt n) = (n \<noteq> 0)"
| "truthy (JFloat w) = (w \<noteq> 0 \<and> w \<noteq> 0x8000000000000000)"
| "truthy (JStr s) = (s \<noteq> [])"
| "truthy (JArr xs) = (xs \<noteq> [])"
| "truthy (JObj d) = (d \<noteq> [])"

text \<open>
  \<^verbatim>\<open>f"{v}"\<close>: a str formats as itself. The text of any other value (\<^verbatim>\<open>str(v)\<close>) is a
  parameter \<open>str_of\<close> of the model.
\<close>

fun py_format :: "(json \<Rightarrow> ustr) \<Rightarrow> json \<Rightarrow> ustr" where
  "py_format str_of (JStr s) = s"
| "py_format str_of v = str_of v"

text \<open>
  \<^verbatim>\<open>s.strip()\<close> removes the leading and trailing whitespace characters, those for which
  \<^verbatim>\<open>str.isspace\<close> holds.
\<close>

definition isspace :: "nat \<Rightarrow> bool" where
  "isspace c = (c \<in> {0x09, 0x0A, 0x0B, 0x0C, 0x0D, 0x1C, 0x1D, 0x1E, 0x1F, 0x20, 0x85, 0xA0,
     0x1680, 0x2000, 0x2001, 0x2002, 0x2003, 0x2004, 0x2005, 0x2006, 0x2007, 0x2008,
     0x2009, 0x200A, 0x2028, 0x2029, 0x202F, 0x205F, 0x3000})"

definition strip :: "ustr \<Rightarrow> ustr" where
  "strip s = rev (dropWhile isspace (rev (dropWhile isspace s)))"

text \<open>
  Splitting a str at every character of a kind, and joining strs with a character
  between them; \<^verbatim>\<open>s.split("\n")\<close> and \<^verbatim>\<open>"\n".join(xs)\<close> are the two at the line feed.
\<close>

fun split_at :: "(nat \<Rightarrow> bool) \<Rightarrow> ustr \<Rightarrow> ustr list" where
  "split_at P [] = [[]]"
| "split_at P (c # cs) =
     (if P c then [] # split_at P cs
      else (case split_at P cs of [] \<Rightarrow> [[c]] | l # ls \<Rightarrow> (c # l) # ls))"

fun join_by :: "nat \<Rightarrow> ustr list \<Rightarrow> ustr" where
  "join_by sep [] = []"
| "join_by sep [l] = l"
| "join_by sep (l # ls) = l @ sep # join_by sep ls"

definition split_lines :: "ustr \<Rightarrow> ustr list" where
  "split_lines s = split_at (\<lambda>c. c = 0x0A) s"

definition join_lines :: "ustr list \<Rightarrow> ustr" where
  "join_lines ls = join_by 0x0A ls"

section \<open>The presentation object model of python-pptx\<close>

text \<open>
  The script reads and builds presentations through python-pptx. The model keeps what
  the script touches: a presentation is its slides in order; a slide has a layout, a
  background and its shapes in document order; a shape either carries a text frame
  (an \<^verbatim>\<open>sp\<close> element: placeholder, auto shape or text box) or does not (picture, chart,
  table, connector, group); a shape of either kind can be a placeholder and then has a
  placeholder index; a text frame is its paragraphs in order, and the text of a
  paragraph is what \<^verbatim>\<open>paragraph.text\<close> reads. Lengths are in
  English Metric Units, as \<^verbatim>\<open>Inches\<close> and \<^verbatim>\<open>Pt\<close> return them: \<^verbatim>\<open>Inches(x)\<close> is the integer
  part of \<open>x\<close> times 914400, which for the decimal literals of the script is the same
  integer in floating point as in exact arithmetic.
\<close>

datatype rgb = RGBColor nat nat nat

definition Inches :: "rat \<Rightarrow> int" where
  "Inches x = \<lfloor>x * 914400\<rfloor>"

definition Pt :: "int \<Rightarrow> int" where
  "Pt n = n * 12700"

record para =
  p_text :: ustr
  p_font_size :: "int option"
  p_font_color :: "rgb option"
  p_font_bold :: "bool option"
  p_level :: "nat option"

datatype autoshape_type = ROUNDED_RECTANGLE | RECTANGLE

datatype sp_kind = Placeholder nat | AutoShape autoshape_type | TextBox

record geometry =
  g_left :: int
  g_top :: int
  g_width :: int
  g_height :: int

record sp =
  sp_kind :: sp_kind
  sp_geom :: "geometry option"
  sp_fill :: "rgb option"
  sp_word_wrap :: "bool option"
  sp_paragraphs :: "para list"

datatype graphic = Picture | Chart | Table | Connector | GroupShape

datatype shape = Sp sp | Graphic graphic "nat option"

record slide =
  sl_layout :: nat
  sl_background :: "rgb option"
  sl_shapes :: "shape list"

record presentation =
  slides :: "slide list"

text \<open>A paragraph as python-pptx creates it: no text, nothing set.\<close>

definition new_paragraph :: para where
  "new_paragraph = \<lparr>p_text = [], p_font_size = None, p_font_color = None,
     p_font_bold = None, p_level = None\<rparr>"

text \<open>
  What python-pptx and lxml make of an assigned str. A run escapes every control
  character below U+0020 but the tab and the line feed as \<^verbatim>\<open>_xHHHH_\<close> (the regular
  expression \<^verbatim>\<open>[\x00-\x08\x0B-\x1F]\<close>); lxml then stores the text, and raises for a str
  XML cannot hold: one with a surrogate (the \<^verbatim>\<open>UnicodeEncodeError\<close> of the encoder is a
  \<^verbatim>\<open>ValueError\<close>), with U+FFFE or with U+FFFF.
\<close>

definition xml_compatible :: "ustr \<Rightarrow> bool" where
  "xml_compatible s =
     list_all (\<lambda>c. \<not> (0xD800 \<le> c \<and> c \<le> 0xDFFF) \<and> c \<noteq> 0xFFFE \<and> c \<noteq> 0xFFFF) s"

definition hex_digit :: "nat \<Rightarrow> nat" where
  "hex_digit d = (if d < 10 then 0x30 + d else 0x37 + d)"

definition run_char :: "nat \<Rightarrow> ustr" where
  "run_char c =
     (if c \<le> 0x08 \<or> (0x0B \<le> c \<and> c \<le> 0x1F)
      then u ''_x00'' @ [hex_digit (c div 16), hex_digit (c mod 16)] @ u ''_''
      else [c])"

definition set_run_text :: "ustr \<Rightarrow> error + ustr" where
  "set_run_text s = (if xml_compatible s then Inr (concat (map run_char s)) else Inl ValueError)"

text \<open>
  Assigning \<^verbatim>\<open>paragraph.text\<close> splits the str at every line feed and vertical tab into
  runs with a line break between them; a line break reads as a vertical tab. The result
  is the text the paragraph reads afterwards. Assigning anything but a str raises.
\<close>

fun as_text :: "json \<Rightarrow> error + ustr" where
  "as_text (JStr s) = Inr s"
| "as_text _ = Inl TextNotStr"

fun add_runs :: "ustr list \<Rightarrow> error + ustr list" where
  "add_runs [] = Inr []"
| "add_runs (r # rs) =
     (case set_run_text r of
        Inl e \<Rightarrow> Inl e
      | Inr t \<Rightarrow> (case add_runs rs of Inl e \<Rightarrow> Inl e | Inr ts \<Rightarrow> Inr (t # ts)))"

definition append_text :: "ustr \<Rightarrow> error + ustr" where
  "append_text s =
     (case add_runs (split_at (\<lambda>c. c = 0x0A \<or> c = 0x0B) s) of
        Inl e \<Rightarrow> Inl e
      | Inr ts \<Rightarrow> Inr (join_by 0x0B ts))"

text \<open>
  Assigning \<^verbatim>\<open>text_frame.text\<close> (or \<^verbatim>\<open>shape.text\<close>) replaces the paragraphs of the frame
  by one paragraph per line of the assigned str, each filled as above; reading it joins
  the texts of the paragraphs with a line feed.
\<close>

fun add_paragraphs :: "ustr list \<Rightarrow> error + para list" where
  "add_paragraphs [] = Inr []"
| "add_paragraphs (l # ls) =
     (case append_text l of
        Inl e \<Rightarrow> Inl e
      | Inr t \<Rightarrow>
          (case add_paragraphs ls of
             Inl e \<Rightarrow> Inl e
           | Inr ps \<Rightarrow> Inr (new_paragraph\<lparr>p_text := t\<rparr> # ps)))"

definition set_frame_text :: "ustr \<Rightarrow> error + para list" where
  "set_frame_text s = add_paragraphs (split_lines s)"

definition frame_text :: "para list \<Rightarrow> ustr" where
  "frame_text ps = join_lines (map p_text ps)"

definition shape_text :: "sp \<Rightarrow> ustr" where
  "shape_text s = frame_text (sp_paragraphs s)"

fun has_text_frame :: "shape \<Rightarrow> bool" where
  "has_text_frame (Sp s) = True"
| "has_text_frame (Graphic g i) = False"

text \<open>
  The placeholder index of a shape, and \<^verbatim>\<open>slide.shapes.title\<close>: the first placeholder of
  index 0 in document order, whatever its kind, \<^verbatim>\<open>None\<close> when the slide has none. The
  position of the shape among the shapes of the slide stands for its identity.
\<close>

fun ph_idx :: "shape \<Rightarrow> nat option" where
  "ph_idx (Sp s) = (case sp_kind s of Placeholder i \<Rightarrow> Some i | _ \<Rightarrow> None)"
| "ph_idx (Graphic g i) = i"

definition is_title_placeholder :: "shape \<Rightarrow> bool" where
  "is_title_placeholder sh = (ph_idx sh = Some 0)"

fun shapes_title :: "nat \<Rightarrow> shape list \<Rightarrow> (nat \<times> shape) option" where
  "shapes_title i [] = None"
| "shapes_title i (sh # rest) =
     (if ph_idx sh = Some 0 then Some (i, sh) else shapes_title (Suc i) rest)"

text \<open>\<^verbatim>\<open>shape.text\<close>: a shape without a text frame has no such attribute.\<close>

fun get_text :: "shape \<Rightarrow> error + ustr" where
  "get_text (Sp s) = Inr (shape_text s)"
| "get_text (Graphic g i) = Inl AttributeError"

section \<open>The Extractor: \<^verbatim>\<open>extract_ppt_text\<close>\<close>

text \<open>
  The record of one slide, the dict \<^verbatim>\<open>{"heading": ..., "bullet_points": [...]}\<close>: it is
  created with these two keys and no key is ever added.
\<close>

record slide_data =
  heading :: ustr
  bullet_points :: "ustr list"

text \<open>
  An uploaded file is what the reader \<^verbatim>\<open>Presentation(ppt_file)\<close> makes of it: the parsed
  presentation, or the exception of the reader.
\<close>

type_synonym ppt_file = "error + presentation"

text \<open>The loop over the paragraphs of one shape (lines 38 to 41).\<close>

fun para_loop :: "slide_data \<Rightarrow> para list \<Rightarrow> slide_data" where
  "para_loop d [] = d"
| "para_loop d (p # ps) =
     (let text = strip (p_text p)
      in para_loop (if text \<noteq> [] then d\<lparr>bullet_points := bullet_points d @ [text]\<rparr> else d) ps)"

text \<open>
  The loop over the shapes of one slide (lines 36 to 41). \<open>t\<close> is the position of the
  title shape, \<open>i\<close> the position of the next shape: \<^verbatim>\<open>shape != slide.shapes.title\<close>
  compares the identity of the underlying elements.
\<close>

fun shape_loop :: "nat option \<Rightarrow> nat \<Rightarrow> slide_data \<Rightarrow> shape list \<Rightarrow> slide_data" where
  "shape_loop t i d [] = d"
| "shape_loop t i d (Graphic g j # rest) = shape_loop t (Suc i) d rest"
| "shape_loop t i d (Sp s # rest) =
     shape_loop t (Suc i) (if Some i \<noteq> t then para_loop d (sp_paragraphs s) else d) rest"

text \<open>
  The body of the loop over the slides (lines 33 to 41). Line 35 reads the text of the
  title shape whatever its kind, and raises when it has none.
\<close>

definition extract_slide :: "slide \<Rightarrow> error + slide_data" where
  "extract_slide sl =
     (let slide_data = \<lparr>heading = [], bullet_points = []\<rparr>;
          title = shapes_title 0 (sl_shapes sl)
      in case (case title of
                 None \<Rightarrow> Inr slide_data
               | Some (i, sh) \<Rightarrow>
                   (case get_text sh of
                      Inl e \<Rightarrow> Inl e
                    | Inr t \<Rightarrow> Inr (slide_data\<lparr>heading := strip t\<rparr>))) of
           Inl e \<Rightarrow> Inl e
         | Inr slide_data \<Rightarrow>
             Inr (shape_loop (map_option fst title) 0 slide_data (sl_shapes sl)))"

fun slide_loop :: "slide_data list \<Rightarrow> slide list \<Rightarrow> error + slide_data list" where
  "slide_loop content [] = Inr content"
| "slide_loop content (sl # rest) =
     (case extract_slide sl of
        Inl e \<Rightarrow> Inl e
      | Inr slide_data \<Rightarrow> slide_loop (content @ [slide_data]) rest)"

definition extract_ppt_text :: "ppt_file \<Rightarrow> error + slide_data list" where
  "extract_ppt_text ppt_file =
     (case ppt_file of
        Inl e \<Rightarrow> Inl e
      | Inr prs \<Rightarrow> slide_loop [] (slides prs))"

subsection \<open>The Extractor as the specification words it\<close>

text \<open>
  The title shape is the first shape designated as title; the remaining shapes are all
  the others, in document order; a shape without a text frame contributes nothing, a
  shape with one contributes its non-empty trimmed paragraphs.
\<close>

definition spec_title_pos :: "shape list \<Rightarrow> nat option" where
  "spec_title_pos shs =
     (if list_ex is_title_placeholder shs
      then Some (length (takeWhile (\<lambda>sh. \<not> is_title_placeholder sh) shs))
      else None)"

definition spec_remaining :: "shape list \<Rightarrow> shape list" where
  "spec_remaining shs =
     (case spec_title_pos shs of None \<Rightarrow> shs | Some k \<Rightarrow> take k shs @ drop (Suc k) shs)"

fun spec_shape_texts :: "shape \<Rightarrow> ustr list" where
  "spec_shape_texts (Sp s) = filter (\<lambda>t. t \<noteq> []) (map (\<lambda>p. strip (p_text p)) (sp_paragraphs s))"
| "spec_shape_texts (Graphic g i) = []"

definition spec_heading :: "slide \<Rightarrow> ustr" where
  "spec_heading sl =
     (case List.find is_title_placeholder (sl_shapes sl) of
        Some (Sp s) \<Rightarrow> strip (shape_text s)
      | _ \<Rightarrow> [])"

definition spec_bullets :: "slide \<Rightarrow> ustr list" where
  "spec_bullets sl = concat (map spec_shape_texts (spec_remaining (sl_shapes sl)))"

definition spec_record :: "slide \<Rightarrow> slide_data" where
  "spec_record sl = \<lparr>heading = spec_heading sl, bullet_points = spec_bullets sl\<rparr>"

section \<open>The Builder: \<^verbatim>\<open>json_to_ppt\<close>\<close>

text \<open>
  \<^verbatim>\<open>Presentation()\<close> opens the default template of python-pptx. Its layout 0 (title
  slide) brings a title placeholder (index 0) and a subtitle placeholder (index 1), its
  layout 6 (blank) brings no shape; the script uses no other layout. A placeholder and
  every new shape start with a text frame of one empty paragraph.
\<close>

definition placeholder :: "nat \<Rightarrow> sp" where
  "placeholder idx = \<lparr>sp_kind = Placeholder idx, sp_geom = None, sp_fill = None,
     sp_word_wrap = None, sp_paragraphs = [new_paragraph]\<rparr>"

definition add_slide :: "nat \<Rightarrow> slide" where
  "add_slide layout = \<lparr>sl_layout = layout, sl_background = None,
     sl_shapes = (if layout = 0 then [Sp (placeholder 0), Sp (placeholder 1)] else [])\<rparr>"

definition add_shape :: "autoshape_type \<Rightarrow> int \<Rightarrow> int \<Rightarrow> int \<Rightarrow> int \<Rightarrow> sp" where
  "add_shape t l tp w h = \<lparr>sp_kind = AutoShape t,
     sp_geom = Some \<lparr>g_left = l, g_top = tp, g_width = w, g_height = h\<rparr>,
     sp_fill = None, sp_word_wrap = None, sp_paragraphs = [new_paragraph]\<rparr>"

definition add_textbox :: "int \<Rightarrow> int \<Rightarrow> int \<Rightarrow> int \<Rightarrow> sp" where
  "add_textbox l tp w h = \<lparr>sp_kind = TextBox,
     sp_geom = Some \<lparr>g_left = l, g_top = tp, g_width = w, g_height = h\<rparr>,
     sp_fill = None, sp_word_wrap = None, sp_paragraphs = [new_paragraph]\<rparr>"

text \<open>\<^verbatim>\<open>slide.shapes.title.text = t\<close> and \<^verbatim>\<open>slide.placeholders[idx].text = t\<close>.\<close>

fun set_text :: "shape \<Rightarrow> ustr \<Rightarrow> error + shape" where
  "set_text (Sp s) t =
     (case set_frame_text t of
        Inl e \<Rightarrow> Inl e
      | Inr ps \<Rightarrow> Inr (Sp (s\<lparr>sp_paragraphs := ps\<rparr>)))"
| "set_text (Graphic g i) t = Inl AttributeError"

definition set_title_text :: "ustr \<Rightarrow> slide \<Rightarrow> error + slide" where
  "set_title_text t sl =
     (case shapes_title 0 (sl_shapes sl) of
        None \<Rightarrow> Inl AttributeError
      | Some (i, sh) \<Rightarrow>
          (case set_text sh t of
             Inl e \<Rightarrow> Inl e
           | Inr sh' \<Rightarrow> Inr (sl\<lparr>sl_shapes := (sl_shapes sl)[i := sh']\<rparr>)))"

fun placeholder_at :: "nat \<Rightarrow> nat \<Rightarrow> shape list \<Rightarrow> (nat \<times> shape) option" where
  "placeholder_at idx i [] = None"
| "placeholder_at idx i (sh # rest) =
     (if ph_idx sh = Some idx then Some (i, sh) else placeholder_at idx (Suc i) rest)"

definition set_placeholder_text :: "nat \<Rightarrow> ustr \<Rightarrow> slide \<Rightarrow> error + slide" where
  "set_placeholder_text idx t sl =
     (case placeholder_at idx 0 (sl_shapes sl) of
        None \<Rightarrow> Inl KeyError
      | Some (i, sh) \<Rightarrow>
          (case set_text sh t of
             Inl e \<Rightarrow> Inl e
           | Inr sh' \<Rightarrow> Inr (sl\<lparr>sl_shapes := (sl_shapes sl)[i := sh']\<rparr>)))"

text \<open>An update of \<^verbatim>\<open>text_frame.paragraphs[0]\<close>.\<close>

fun update_first :: "(para \<Rightarrow> para) \<Rightarrow> para list \<Rightarrow> error + para list" where
  "update_first f [] = Inl IndexError"
| "update_first f (p # ps) = Inr (f p # ps)"

text \<open>The title slide (lines 88 to 90).\<close>

definition title_slide :: "json \<Rightarrow> error + slide" where
  "title_slide content =
     (case py_get content (u ''title'') (JStr (u ''Untitled Presentation'')) of
        Inl e \<Rightarrow> Inl e
      | Inr v \<Rightarrow>
     (case as_text v of
        Inl e \<Rightarrow> Inl e
      | Inr t \<Rightarrow>
     (case set_title_text t (add_slide 0) of
        Inl e \<Rightarrow> Inl e
      | Inr sl \<Rightarrow> set_placeholder_text 1 (u ''Enhanced by GPT-4'') sl)))"

text \<open>The dark blue title shape of a content slide (lines 102 to 111).\<close>

definition title_shape :: "ustr \<Rightarrow> error + sp" where
  "title_shape h =
     (let sh = add_shape ROUNDED_RECTANGLE (Inches 0.5) (Inches 0.4) (Inches 9) (Inches 1);
          sh = sh\<lparr>sp_fill := Some (RGBColor 0 102 204)\<rparr>
      in case set_frame_text h of
           Inl e \<Rightarrow> Inl e
         | Inr ps \<Rightarrow>
        (case update_first
                (\<lambda>p. p\<lparr>p_font_size := Some (Pt 28), p_font_color := Some (RGBColor 255 255 255),
                        p_font_bold := Some True\<rparr>)
                ps of
           Inl e \<Rightarrow> Inl e
         | Inr ps' \<Rightarrow> Inr (sh\<lparr>sp_paragraphs := ps'\<rparr>)))"

text \<open>
  The loop over the bullet points (lines 118 to 122): \<^verbatim>\<open>tf.add_paragraph()\<close> appends a
  paragraph to the frame, \<^verbatim>\<open>p.text = bp\<close> raises unless \<open>bp\<close> is a str that XML can hold.
\<close>

fun bullet_loop :: "para list \<Rightarrow> json list \<Rightarrow> error + para list" where
  "bullet_loop tf [] = Inr tf"
| "bullet_loop tf (bp # rest) =
     (case as_text bp of
        Inl e \<Rightarrow> Inl e
      | Inr s \<Rightarrow>
     (case append_text s of
        Inl e \<Rightarrow> Inl e
      | Inr t \<Rightarrow>
          bullet_loop (tf @ [new_paragraph\<lparr>p_text := t, p_font_size := Some (Pt 18),
                                           p_level := Some 0\<rparr>]) rest))"

text \<open>The gray placeholder box of a chart (lines 126 to 133).\<close>

definition chart_box :: "ustr \<Rightarrow> error + sp" where
  "chart_box label =
     (let sh = add_shape RECTANGLE (Inches 5.5) (Inches 5) (Inches 3.5) (Inches 1);
          sh = sh\<lparr>sp_fill := Some (RGBColor 230 230 230)\<rparr>
      in case set_frame_text label of
           Inl e \<Rightarrow> Inl e
         | Inr ps0 \<Rightarrow>
        (case update_first (\<lambda>p. p\<lparr>p_font_size := Some (Pt 14)\<rparr>) ps0 of
           Inl e \<Rightarrow> Inl e
         | Inr ps \<Rightarrow>
        (case update_first (\<lambda>p. p\<lparr>p_font_color := Some (RGBColor 80 80 80)\<rparr>) ps of
           Inl e \<Rightarrow> Inl e
         | Inr ps' \<Rightarrow> Inr (sh\<lparr>sp_paragraphs := ps'\<rparr>))))"

definition chart_label :: "(json \<Rightarrow> ustr) \<Rightarrow> json \<Rightarrow> ustr" where
  "chart_label str_of v = u ''['' @ py_format str_of v @ u '' chart placeholder]''"

text \<open>The body of the loop over the slide records (lines 93 to 133).\<close>

definition content_slide :: "(json \<Rightarrow> ustr) \<Rightarrow> json \<Rightarrow> error + slide" where
  "content_slide str_of s =
     (let slide = add_slide 6;
          slide = slide\<lparr>sl_background := Some (RGBColor 240 248 255)\<rparr>
      in case py_get s (u ''heading'') (JStr []) of
           Inl e \<Rightarrow> Inl e
         | Inr h \<Rightarrow>
        (case as_text h of
           Inl e \<Rightarrow> Inl e
         | Inr ht \<Rightarrow>
        (case title_shape ht of
           Inl e \<Rightarrow> Inl e
         | Inr tsh \<Rightarrow>
        (let slide = slide\<lparr>sl_shapes := sl_shapes slide @ [Sp tsh]\<rparr>;
             textbox = add_textbox (Inches 0.8) (Inches 1.6) (Inches 8.5) (Inches 4.5);
             textbox = textbox\<lparr>sp_word_wrap := Some True\<rparr>
         in case py_get s (u ''bullet_points'') (JArr []) of
              Inl e \<Rightarrow> Inl e
            | Inr bps \<Rightarrow>
           (case py_iter bps of
              Inl e \<Rightarrow> Inl e
            | Inr items \<Rightarrow>
           (case bullet_loop (sp_paragraphs textbox) items of
              Inl e \<Rightarrow> Inl e
            | Inr tf \<Rightarrow>
           (let slide = slide\<lparr>sl_shapes := sl_shapes slide @ [Sp (textbox\<lparr>sp_paragraphs := tf\<rparr>)]\<rparr>
            in case py_get s (u ''chart_type'') JNull of
                 Inl e \<Rightarrow> Inl e
               | Inr ct \<Rightarrow>
                   if truthy ct
                   then (case chart_box (chart_label str_of ct) of
                           Inl e \<Rightarrow> Inl e
                         | Inr cb \<Rightarrow> Inr (slide\<lparr>sl_shapes := sl_shapes slide @ [Sp cb]\<rparr>))
                   else Inr slide)))))))"

fun slides_loop :: "(json \<Rightarrow> ustr) \<Rightarrow> presentation \<Rightarrow> json list \<Rightarrow> error + presentation" where
  "slides_loop str_of prs [] = Inr prs"
| "slides_loop str_of prs (s # rest) =
     (case content_slide str_of s of
        Inl e \<Rightarrow> Inl e
      | Inr sl \<Rightarrow> slides_loop str_of (prs\<lparr>slides := slides prs @ [sl]\<rparr>) rest)"

text \<open>Lines 84 to 133: the presentation that \<^verbatim>\<open>json_to_ppt\<close> builds before it saves it.\<close>

definition build_presentation :: "(json \<Rightarrow> ustr) \<Rightarrow> json \<Rightarrow> error + presentation" where
  "build_presentation str_of content =
     (case title_slide content of
        Inl e \<Rightarrow> Inl e
      | Inr ts \<Rightarrow>
     (case py_get content (u ''slides'') (JArr []) of
        Inl e \<Rightarrow> Inl e
      | Inr v \<Rightarrow>
     (case py_iter v of
        Inl e \<Rightarrow> Inl e
      | Inr records \<Rightarrow> slides_loop str_of \<lparr>slides = [ts]\<rparr> records)))"

text \<open>
  The files the script writes: a path holds the presentation saved there. Saving can
  fail; \<open>write_error\<close> gives the exception of the file system for a path, \<open>None\<close> when
  the path can be written.
\<close>

type_synonym filesystem = "ustr \<Rightarrow> presentation option"

definition save :: "(ustr \<Rightarrow> error option) \<Rightarrow> presentation \<Rightarrow> ustr \<Rightarrow> filesystem \<Rightarrow> error + filesystem" where
  "save write_error prs path fs =
     (case write_error path of
        Some e \<Rightarrow> Inl e
      | None \<Rightarrow> Inr (fs(path \<mapsto> prs)))"

definition json_to_ppt ::
  "(json \<Rightarrow> ustr) \<Rightarrow> (ustr \<Rightarrow> error option) \<Rightarrow> json \<Rightarrow> ustr \<Rightarrow> filesystem \<Rightarrow> error + ustr \<times> filesystem" where
  "json_to_ppt str_of write_error content output_path fs =
     (case build_presentation str_of content of
        Inl e \<Rightarrow> Inl e
      | Inr prs \<Rightarrow>
     (case save write_error prs output_path fs of
        Inl e \<Rightarrow> Inl e
      | Inr fs' \<Rightarrow> Inr (output_path, fs')))"

section \<open>The Enhancer: \<^verbatim>\<open>generate_improved_json\<close>\<close>

text \<open>
  The language-model service, \<^verbatim>\<open>json.dumps\<close> and the decimal text of an integer are
  collaborators: \<open>chat\<close> maps the system and the user message to the text of the first
  choice of the reply or to the exception of the client. The user message is the
  f-string of lines 48 to 68, line by line; its last ten lines are the example of the
  reply the model is asked for.
\<close>

definition system_message :: ustr where
  \<open>system_message = u ''You are a presentation designer. Improve structure of presentation slides and return clean JSON.''\<close>

definition example_lines :: "ustr list" where
  \<open>example_lines =
     [u ''{'',
      u ''  "title": "Title",'',
      u ''  "slides": ['',
      u ''    {'',
      u ''      "heading": "Slide title",'',
      u ''      "bullet_points": ["...", "..."],'',
      u ''      "chart_type": "bar"  # optional'',
      u ''    }'',
      u ''  ]'',
      u ''}'']\<close>

definition user_message ::
  "(slide_data list \<Rightarrow> ustr) \<Rightarrow> (int \<Rightarrow> ustr) \<Rightarrow> ustr \<Rightarrow> slide_data list \<Rightarrow> int \<Rightarrow> ustr \<Rightarrow> ustr" where
  \<open>user_message dumps str_int topic extracted slide_count style =
     join_lines
       ([[],
         u ''Topic: '' @ topic,
         u ''Slides to improve:'',
         dumps extracted,
         [],
         u ''Instructions:'',
         u ''- Target slide count: ~'' @ str_int slide_count,
         u ''- Style: '' @ style,
         u ''- Add chart_type (bar, pie, line) when appropriate'',
         u ''- Return only valid JSON like:'']
        @ example_lines @ [[]])\<close>

definition generate_improved_json ::
  "(ustr \<Rightarrow> ustr \<Rightarrow> error + ustr) \<Rightarrow> (slide_data list \<Rightarrow> ustr) \<Rightarrow> (int \<Rightarrow> ustr) \<Rightarrow>
   ustr \<Rightarrow> slide_data list \<Rightarrow> int \<Rightarrow> ustr \<Rightarrow> error + ustr" where
  "generate_improved_json chat dumps str_int topic extracted slide_count style =
     (case chat system_message (user_message dumps str_int topic extracted slide_count style) of
        Inl e \<Rightarrow> Inl e
      | Inr reply \<Rightarrow> Inr (strip reply))"

text \<open>
  The object the example of the instruction text denotes: a deck titled \<^verbatim>\<open>Title\<close> with
  one slide record. The remark \<^verbatim>\<open># optional\<close> of the text is addressed to the model and
  is no part of the object.
\<close>

definition example_json :: json where
  "example_json =
     JObj [(u ''title'', JStr (u ''Title'')),
           (u ''slides'', JArr
              [JObj [(u ''heading'', JStr (u ''Slide title'')),
                     (u ''bullet_points'', JArr [JStr (u ''...''), JStr (u ''...'')]),
                     (u ''chart_type'', JStr (u ''bar''))]])]"

section \<open>The script: Access Guard and Orchestrator\<close>

text \<open>
  One run of the script serves one request. The request carries the \<^verbatim>\<open>key\<close> parameter
  of the URL (\<open>None\<close> when the URL has none), whether the form was submitted, the
  uploaded file (\<open>None\<close> when no file was chosen) and the three form fields.
\<close>

record request =
  query_key :: "ustr option"
  submitted :: bool
  uploaded :: "ppt_file option"
  topic :: ustr
  slide_count :: int
  style :: ustr

text \<open>
  What the run depends on besides the request: the configured access key and the
  collaborators. \<open>temp_file\<close> is the name of the file \<^verbatim>\<open>NamedTemporaryFile\<close> creates, or
  its exception.
\<close>

record env =
  required_key :: ustr
  chat :: "ustr \<Rightarrow> ustr \<Rightarrow> error + ustr"
  json_dumps :: "slide_data list \<Rightarrow> ustr"
  str_int :: "int \<Rightarrow> ustr"
  json_loads :: "ustr \<Rightarrow> error + json"
  str_of :: "json \<Rightarrow> ustr"
  temp_file :: "error + ustr"
  write_error :: "ustr \<Rightarrow> error option"

text \<open>
  What a run does, in order: the messages and widgets it shows the user, and a mark at
  each call of a pipeline stage. \<open>St_exception e\<close> is the message of line 171, which
  shows the text of the exception caught. Calls that only lay out the page (title,
  form, spinners) are left out.
\<close>

datatype event =
    St_error ustr
  | St_exception error
  | St_success ustr
  | St_json_extracted "slide_data list"
  | St_json_data json
  | St_download_button presentation ustr
  | Run_extract
  | Run_enhance
  | Run_loads
  | Run_build

text \<open>
  How a run ends: at the end of the script, by \<^verbatim>\<open>st.stop()\<close>, or by an exception nothing
  catches.
\<close>

datatype outcome = Completed | Stopped | Uncaught error

definition access_denied_message :: ustr where
  "access_denied_message = 0x1F512 # u '' Access Denied: Invalid or missing key in URL.''"

definition missing_upload_message :: ustr where
  "missing_upload_message = u ''Please upload a presentation file.''"

definition extracted_message :: ustr where
  "extracted_message = 0x2705 # u '' Slide content extracted''"

definition json_ready_message :: ustr where
  "json_ready_message = 0x2705 # u '' JSON structure ready''"

definition download_name :: ustr where
  "download_name = u ''enhanced_presentation.pptx''"

text \<open>Lines 13 to 17: \<^verbatim>\<open>user_key != required_key\<close>; a missing key is \<^verbatim>\<open>None\<close>.\<close>

definition access_denied :: "env \<Rightarrow> request \<Rightarrow> bool" where
  "access_denied ev req = (query_key req \<noteq> Some (required_key ev))"

text \<open>
  The body of the \<^verbatim>\<open>try\<close> (lines 159 to 168): the events it produced and, when it
  raised, the exception.
\<close>

definition try_body ::
  "env \<Rightarrow> request \<Rightarrow> slide_data list \<Rightarrow> filesystem \<Rightarrow> event list \<times> error option \<times> filesystem" where
  "try_body ev req extracted fs =
     (case generate_improved_json (chat ev) (json_dumps ev) (str_int ev)
             (topic req) extracted (slide_count req) (style req) of
        Inl e \<Rightarrow> ([Run_enhance], Some e, fs)
      | Inr json_str \<Rightarrow>
     (case json_loads ev json_str of
        Inl e \<Rightarrow> ([Run_enhance, Run_loads], Some e, fs)
      | Inr data \<Rightarrow>
     (let shown = [Run_enhance, Run_loads, St_success json_ready_message, St_json_data data]
      in case temp_file ev of
           Inl e \<Rightarrow> (shown, Some e, fs)
         | Inr tmp_name \<Rightarrow>
        (case json_to_ppt (str_of ev) (write_error ev) data tmp_name fs of
           Inl e \<Rightarrow> (shown @ [Run_build], Some e, fs)
         | Inr (pptx_path, fs') \<Rightarrow>
        (case fs' pptx_path of
           None \<Rightarrow> (shown @ [Run_build], Some FileNotFoundError, fs')
         | Some f \<Rightarrow>
             (shown @ [Run_build, St_download_button f download_name], None, fs'))))))"

text \<open>Lines 157 to 171: the \<^verbatim>\<open>try\<close> with its \<^verbatim>\<open>except Exception\<close>.\<close>

definition enhance_and_build ::
  "env \<Rightarrow> request \<Rightarrow> slide_data list \<Rightarrow> filesystem \<Rightarrow> event list \<times> filesystem" where
  "enhance_and_build ev req extracted fs =
     (case try_body ev req extracted fs of
        (evs, None, fs') \<Rightarrow> (evs, fs')
      | (evs, Some e, fs') \<Rightarrow> (evs @ [St_exception e], fs'))"

text \<open>Lines 148 to 171: the handler of a submitted form.\<close>

definition submit_handler :: "env \<Rightarrow> request \<Rightarrow> filesystem \<Rightarrow> event list \<times> outcome \<times> filesystem" where
  "submit_handler ev req fs =
     (case uploaded req of
        None \<Rightarrow> ([St_error missing_upload_message], Completed, fs)
      | Some ppt_file \<Rightarrow>
     (case extract_ppt_text ppt_file of
        Inl e \<Rightarrow> ([Run_extract], Uncaught e, fs)
      | Inr extracted \<Rightarrow>
          (let shown = [Run_extract, St_success extracted_message, St_json_extracted extracted];
               (evs, fs') = enhance_and_build ev req extracted fs
           in (shown @ evs, Completed, fs'))))"

text \<open>The whole script: the guard of lines 13 to 19, then the form and its handler.\<close>

definition run_script :: "env \<Rightarrow> request \<Rightarrow> filesystem \<Rightarrow> event list \<times> outcome \<times> filesystem" where
  "run_script ev req fs =
     (if access_denied ev req then ([St_error access_denied_message], Stopped, fs)
      else if submitted req then submit_handler ev req fs
      else ([], Completed, fs))"

section \<open>Vocabulary of the properties\<close>

text \<open>
  The slide records a deck gives the Builder: what the loop of line 92 iterates over,
  the elements of the \<^verbatim>\<open>slides\<close> list, none when the key is absent. The heading of a
  record is the empty str when the key is absent, its bullet points are what the loop
  of line 118 iterates over, its chart type is \<^verbatim>\<open>None\<close> when the key is absent.
\<close>

definition deck_records :: "json \<Rightarrow> json list" where
  "deck_records content =
     (case py_get content (u ''slides'') (JArr []) of
        Inl e \<Rightarrow> []
      | Inr v \<Rightarrow> (case py_iter v of Inl e \<Rightarrow> [] | Inr records \<Rightarrow> records))"

definition deck_title :: "json \<Rightarrow> json" where
  "deck_title content =
     (case py_get content (u ''title'') (JStr (u ''Untitled Presentation'')) of
        Inl e \<Rightarrow> JNull
      | Inr v \<Rightarrow> v)"

definition record_heading :: "json \<Rightarrow> json" where
  "record_heading s = (case py_get s (u ''heading'') (JStr []) of Inl e \<Rightarrow> JNull | Inr v \<Rightarrow> v)"

definition record_bullets :: "json \<Rightarrow> json list" where
  "record_bullets s =
     (case py_get s (u ''bullet_points'') (JArr []) of
        Inl e \<Rightarrow> []
      | Inr v \<Rightarrow> (case py_iter v of Inl e \<Rightarrow> [] | Inr items \<Rightarrow> items))"

definition record_chart_type :: "json \<Rightarrow> json" where
  "record_chart_type s = (case py_get s (u ''chart_type'') JNull of Inl e \<Rightarrow> JNull | Inr v \<Rightarrow> v)"

text \<open>
  The EnhancedDeck of the data model: an object whose \<^verbatim>\<open>title\<close>, when present, is a
  string and whose \<^verbatim>\<open>slides\<close>, when present, is a list of slide records; a slide record
  is an object whose \<^verbatim>\<open>heading\<close> and \<^verbatim>\<open>chart_type\<close>, when present, are strings and whose
  \<^verbatim>\<open>bullet_points\<close>, when present, is a list of strings. Every field may be missing.
\<close>

fun is_str :: "json \<Rightarrow> bool" where
  "is_str (JStr s) = True"
| "is_str _ = False"

fun str_or_absent :: "json option \<Rightarrow> bool" where
  "str_or_absent None = True"
| "str_or_absent (Some v) = is_str v"

fun record_shaped :: "json \<Rightarrow> bool" where
  "record_shaped (JObj d) =
     (str_or_absent (map_of d (u ''heading'')) \<and>
      (case map_of d (u ''bullet_points'') of
         None \<Rightarrow> True
       | Some (JArr bs) \<Rightarrow> list_all is_str bs
       | Some _ \<Rightarrow> False) \<and>
      str_or_absent (map_of d (u ''chart_type'')))"
| "record_shaped _ = False"

fun deck_shaped :: "json \<Rightarrow> bool" where
  "deck_shaped (JObj d) =
     (str_or_absent (map_of d (u ''title'')) \<and>
      (case map_of d (u ''slides'') of
         None \<Rightarrow> True
       | Some (JArr ss) \<Rightarrow> list_all record_shaped ss
       | Some _ \<Rightarrow> False))"
| "deck_shaped _ = False"

text \<open>The slide size of the default template: 10 by 7.5 inches.\<close>

definition slide_width :: int where
  "slide_width = Inches 10"

definition slide_height :: int where
  "slide_height = Inches 7.5"

text \<open>Whether an event marks the call of a pipeline stage, and whether it is an error shown.\<close>

fun is_stage_call :: "event \<Rightarrow> bool" where
  "is_stage_call Run_extract = True"
| "is_stage_call Run_enhance = True"
| "is_stage_call Run_loads = True"
| "is_stage_call Run_build = True"
| "is_stage_call _ = False"

fun is_error_shown :: "event \<Rightarrow> bool" where
  "is_error_shown (St_error m) = True"
| "is_error_shown (St_exception e) = True"
| "is_error_shown _ = False"

text \<open>The gray rectangle that stands for a chart: a rectangle auto shape filled gray.\<close>

fun is_chart_box :: "shape \<Rightarrow> bool" where
  "is_chart_box (Sp s) = (sp_kind s = AutoShape RECTANGLE \<and> sp_fill s = Some (RGBColor 230 230 230))"
| "is_chart_box (Graphic g i) = False"

text \<open>Whether a shape lies in the lower right quarter of the slide.\<close>

definition in_lower_right :: "sp \<Rightarrow> bool" where
  "in_lower_right s =
     (case sp_geom s of
        None \<Rightarrow> False
      | Some g \<Rightarrow>
          slide_width div 2 \<le> g_left g \<and> g_left g + g_width g \<le> slide_width \<and>
          slide_height div 2 \<le> g_top g \<and> g_top g + g_height g \<le> slide_height)"

text \<open>
  What a text frame and what a paragraph read after a str was assigned to them, character
  by character: a frame keeps the line feed (it separates paragraphs) and the vertical
  tab (a line break), a paragraph reads both as a vertical tab, and every other control
  character below U+0020 but the tab is written \<^verbatim>\<open>_xHHHH_\<close>. A str without such control
  characters is read as it was assigned.
\<close>

definition frame_char :: "nat \<Rightarrow> ustr" where
  "frame_char c = (if c = 0x0A \<or> c = 0x0B then [c] else run_char c)"

definition stored_text :: "ustr \<Rightarrow> ustr" where
  "stored_text s = concat (map frame_char s)"

definition para_char :: "nat \<Rightarrow> ustr" where
  "para_char c = (if c = 0x0A \<or> c = 0x0B then [0x0B] else run_char c)"

definition stored_line :: "ustr \<Rightarrow> ustr" where
  "stored_line s = concat (map para_char s)"

definition no_control :: "ustr \<Rightarrow> bool" where
  "no_control s = list_all (\<lambda>c. 0x08 < c \<and> \<not> (0x0C \<le> c \<and> c \<le> 0x1F)) s"

text \<open>
  Whether every string of a value of the shape above can be held by XML: the title, the
  headings, the bullet points and the chart types.
\<close>

fun compatible_str :: "json \<Rightarrow> bool" where
  "compatible_str (JStr s) = xml_compatible s"
| "compatible_str _ = True"

fun compatible_strs :: "json \<Rightarrow> bool" where
  "compatible_strs (JArr xs) = list_all compatible_str xs"
| "compatible_strs _ = True"

fun record_compatible :: "json \<Rightarrow> bool" where
  "record_compatible (JObj d) =
     (compatible_str (dict_get d (u ''heading'') JNull) \<and>
      compatible_strs (dict_get d (u ''bullet_points'') JNull) \<and>
      compatible_str (dict_get d (u ''chart_type'') JNull))"
| "record_compatible _ = True"

fun compatible_records :: "json \<Rightarrow> bool" where
  "compatible_records (JArr ss) = list_all record_compatible ss"
| "compatible_records _ = True"

fun deck_compatible :: "json \<Rightarrow> bool" where
  "deck_compatible (JObj d) =
     (compatible_str (dict_get d (u ''title'') JNull) \<and>
      compatible_records (dict_get d (u ''slides'') JNull))"
| "deck_compatible _ = True"

text \<open>
  Whether the title shape of a slide, its first placeholder of index 0, is a shape
  without a text frame.
\<close>

definition title_without_text :: "slide \<Rightarrow> bool" where
  "title_without_text sl =
     (case List.find is_title_placeholder (sl_shapes sl) of
        Some (Graphic g i) \<Rightarrow> True
      | _ \<Rightarrow> False)"

text \<open>
  The texts of the shapes of a slide, and the texts of the presentation a call of the
  Builder saved, slide by slide, or the exception of the call.
\<close>

fun slide_texts :: "slide \<Rightarrow> ustr list" where
  "slide_texts sl =
     map (\<lambda>sh. case sh of Sp s \<Rightarrow> shape_text s | Graphic g i \<Rightarrow> []) (sl_shapes sl)"

definition saved_texts :: "error + ustr \<times> filesystem \<Rightarrow> error + ustr list list" where
  "saved_texts r =
     (case r of
        Inl e \<Rightarrow> Inl e
      | Inr (p, fs') \<Rightarrow>
          (case fs' p of
             None \<Rightarrow> Inl FileNotFoundError
           | Some prs \<Rightarrow> Inr (map slide_texts (slides prs))))"

section \<open>Sample inputs\<close>

definition text_sp :: "sp_kind \<Rightarrow> ustr list \<Rightarrow> sp" where
  "text_sp k texts = \<lparr>sp_kind = k, sp_geom = None, sp_fill = None, sp_word_wrap = None,
     sp_paragraphs = map (\<lambda>t. new_paragraph\<lparr>p_text := t\<rparr>) texts\<rparr>"

text \<open>
  An uploaded deck of three slides: a title slide, a slide with a picture between its
  texts, and a slide of a picture and a chart only.
\<close>

definition sample_deck :: presentation where
  "sample_deck = \<lparr>slides =
     [\<lparr>sl_layout = 0, sl_background = None, sl_shapes =
         [Sp (text_sp (Placeholder 0) [u '' Welcome '']),
          Sp (text_sp (Placeholder 1) [u ''2026'', u ''  '', u ''Q3 ''])]\<rparr>,
      \<lparr>sl_layout = 1, sl_background = None, sl_shapes =
         [Sp (text_sp TextBox [u ''first'']),
          Graphic Picture None,
          Sp (text_sp (Placeholder 0) [u ''Plan'']),
          Sp (text_sp (Placeholder 1) [[], u '' second'', u ''third''])]\<rparr>,
      \<lparr>sl_layout = 6, sl_background = None, sl_shapes = [Graphic Picture None, Graphic Chart None]\<rparr>]\<rparr>"

text \<open>
  A parsed reply of the model: a deck of two slide records, the second without a
  heading and with an empty chart type. A deck with every optional field missing. The
  name of a temporary file.
\<close>

definition sample_enhanced :: json where
  "sample_enhanced =
     JObj [(u ''title'', JStr (u ''Q3 Review'')),
           (u ''slides'', JArr
              [JObj [(u ''heading'', JStr (u ''Sales'')),
                     (u ''bullet_points'', JArr [JStr (u ''up''), JStr (u ''steady'')]),
                     (u ''chart_type'', JStr (u ''pie''))],
               JObj [(u ''bullet_points'', JArr [JStr (u ''next steps'')]),
                     (u ''chart_type'', JStr [])]])]"

definition sample_sparse :: json where
  "sample_sparse = JObj [(u ''slides'', JArr [JObj []])]"

definition sample_path :: ustr where
  "sample_path = u ''/tmp/tmpab12.pptx''"

text \<open>
  A configuration whose JSON parser refuses every reply, as it refuses a reply that is
  no JSON, and a submitted request with a given key and upload.
\<close>

definition sample_env :: env where
  "sample_env = \<lparr>required_key = u ''s3cret'',
     chat = (\<lambda>system_text user_text. Inr (u '' Sure, here is the deck! '')),
     json_dumps = (\<lambda>extracted. []),
     str_int = (\<lambda>n. []),
     json_loads = (\<lambda>s. Inl (External (u ''Expecting value: line 1 column 1 (char 0)''))),
     str_of = (\<lambda>v. []),
     temp_file = Inr sample_path,
     write_error = (\<lambda>p. None)\<rparr>"

definition sample_request :: "ustr option \<Rightarrow> ppt_file option \<Rightarrow> request" where
  "sample_request k f = \<lparr>query_key = k, submitted = True, uploaded = f,
     topic = u ''AI in Healthcare'', slide_count = 6,
     style = u ''Professional, modern, minimal''\<rparr>"

text \<open>
  Decks of one slide record that hold a carriage return, U+FFFF or a bell, a deck whose
  title is a number, a way to format values and a file system that accepts every path.
\<close>

definition cr_heading_deck :: json where
  "cr_heading_deck = JObj [(u ''slides'', JArr [JObj [(u ''heading'', JStr [0x41, 0x0D, 0x42])]])]"

definition ffff_heading_deck :: json where
  "ffff_heading_deck =
     JObj [(u ''slides'', JArr [JObj [(u ''heading'', JStr [0x41, 0xFFFF, 0x42])]])]"

definition cr_chart_deck :: json where
  "cr_chart_deck = JObj [(u ''slides'', JArr [JObj [(u ''chart_type'', JStr [0x70, 0x0D])]])]"

definition ffff_chart_deck :: json where
  "ffff_chart_deck = JObj [(u ''slides'', JArr [JObj [(u ''chart_type'', JStr [0xFFFF])]])]"

definition bell_title_deck :: json where
  "bell_title_deck = JObj [(u ''title'', JStr [0x54, 0x07])]"

definition number_title_deck :: json where
  "number_title_deck = JObj [(u ''title'', JInt 42)]"

definition lf_bullet_deck :: json where
  "lf_bullet_deck =
     JObj [(u ''slides'', JArr [JObj [(u ''bullet_points'', JArr [JStr [0x61, 0x0A, 0x62]])]])]"

definition no_format :: "json \<Rightarrow> ustr" where
  "no_format v = []"

definition writable :: "ustr \<Rightarrow> error option" where
  "writable p = None"

text \<open>
  An uploaded deck of two slides: a title slide, and a slide whose only shape is a
  picture that fills the placeholder of index 0.
\<close>

definition picture_title_deck :: presentation where
  "picture_title_deck = \<lparr>slides =
     [\<lparr>sl_layout = 0, sl_background = None, sl_shapes =
         [Sp (text_sp (Placeholder 0) [u ''Welcome''])]\<rparr>,
      \<lparr>sl_layout = 8, sl_background = None, sl_shapes = [Graphic Picture (Some 0)]\<rparr>]\<rparr>"

text \<open>An uploaded deck of one slide whose only shape is such a picture.\<close>

definition picture_only_deck :: presentation where
  "picture_only_deck = \<lparr>slides =
     [\<lparr>sl_layout = 8, sl_background = None, sl_shapes = [Graphic Picture (Some 0)]\<rparr>]\<rparr>"

text \<open>The file system before a run: no presentation saved anywhere.\<close>

definition no_files :: filesystem where
  "no_files = Map.empty"

section \<open>Texts as python-pptx stores them\<close>

lemma split_at_nonempty: "split_at P s \<noteq> []"
  by (induction s) (auto split: list.splits)

lemma join_by_split_at:
  "join_by sep (map (\<lambda>l. concat (map f l)) (split_at P s)) =
   concat (map (\<lambda>c. if P c then [sep] else f c) s)"
proof (induction s)
  case Nil
  then show ?case by simp
next
  case (Cons c cs)
  obtain l ls where sp: "split_at P cs = l # ls"
    using split_at_nonempty [of P cs] by (cases "split_at P cs") auto
  show ?case
    using Cons sp by (cases ls) auto
qed

lemma split_at_all:
  assumes "\<And>c. P c \<Longrightarrow> Q c"
  shows "list_all (list_all Q) (split_at P s) = list_all Q s"
proof (induction s)
  case Nil
  then show ?case by simp
next
  case (Cons c cs)
  obtain l ls where sp: "split_at P cs = l # ls"
    using split_at_nonempty [of P cs] by (cases "split_at P cs") auto
  show ?case
    using Cons sp assms [of c] by auto
qed

lemma xml_compatible_split_at:
  assumes "\<And>c. P c \<Longrightarrow> c < 0xD800"
  shows "list_all xml_compatible (split_at P s) = xml_compatible s"
proof -
  let ?Q = "\<lambda>c::nat. \<not> (0xD800 \<le> c \<and> c \<le> 0xDFFF) \<and> c \<noteq> 0xFFFE \<and> c \<noteq> 0xFFFF"
  have "?Q c" if "P c" for c
    using assms [OF that] by simp
  then have "list_all (list_all ?Q) (split_at P s) = list_all ?Q s"
    by (rule split_at_all)
  moreover have "xml_compatible = list_all ?Q"
    by (rule ext) (simp add: xml_compatible_def)
  ultimately show ?thesis by simp
qed

lemma xml_compatible_append [simp]:
  "xml_compatible (a @ b) = (xml_compatible a \<and> xml_compatible b)"
  by (simp add: xml_compatible_def)

lemma add_runs_eq:
  "add_runs rs =
   (if list_all xml_compatible rs then Inr (map (\<lambda>r. concat (map run_char r)) rs)
    else Inl ValueError)"
  by (induction rs) (simp_all add: set_run_text_def)

lemma append_text_eq:
  "append_text s = (if xml_compatible s then Inr (stored_line s) else Inl ValueError)"
proof -
  have "list_all xml_compatible (split_at (\<lambda>c. c = 0x0A \<or> c = 0x0B) s) = xml_compatible s"
    by (rule xml_compatible_split_at) auto
  moreover have "join_by 0x0B (map (\<lambda>r. concat (map run_char r)) (split_at (\<lambda>c. c = 0x0A \<or> c = 0x0B) s))
      = stored_line s"
    unfolding join_by_split_at stored_line_def para_char_def by simp
  ultimately show ?thesis
    by (simp add: append_text_def add_runs_eq)
qed

lemma add_paragraphs_eq:
  "add_paragraphs ls =
   (if list_all xml_compatible ls
    then Inr (map (\<lambda>l. new_paragraph\<lparr>p_text := stored_line l\<rparr>) ls)
    else Inl ValueError)"
  by (induction ls) (simp_all add: append_text_eq)

lemma set_frame_text_eq:
  "set_frame_text s =
   (if xml_compatible s
    then Inr (map (\<lambda>l. new_paragraph\<lparr>p_text := stored_line l\<rparr>) (split_lines s))
    else Inl ValueError)"
proof -
  have "list_all xml_compatible (split_lines s) = xml_compatible s"
    unfolding split_lines_def by (rule xml_compatible_split_at) auto
  then show ?thesis
    by (simp add: set_frame_text_def add_paragraphs_eq)
qed

lemma frame_text_stored:
  "frame_text (map (\<lambda>l. new_paragraph\<lparr>p_text := stored_line l\<rparr>) (split_lines s)) = stored_text s"
proof -
  have "join_by 0x0A (map (\<lambda>l. concat (map para_char l)) (split_at (\<lambda>c. c = 0x0A) s)) =
      concat (map (\<lambda>c. if c = 0x0A then [0x0A] else para_char c) s)"
    by (rule join_by_split_at)
  moreover have "(\<lambda>c. if c = 0x0A then [0x0A] else para_char c) = frame_char"
    by (rule ext) (simp add: frame_char_def para_char_def)
  ultimately show ?thesis
    by (simp add: frame_text_def join_lines_def split_lines_def stored_line_def [abs_def]
        stored_text_def comp_def)
qed

lemma set_frame_text_Inr:
  "set_frame_text s = Inr ps \<Longrightarrow> xml_compatible s \<and> ps \<noteq> [] \<and> frame_text ps = stored_text s"
  using frame_text_stored [of s] split_at_nonempty [of "\<lambda>c. c = 0x0A" s]
  by (auto simp: set_frame_text_eq split_lines_def split: if_splits)

lemma set_frame_text_ok:
  "xml_compatible s \<Longrightarrow> \<exists>ps. set_frame_text s = Inr ps"
  by (simp add: set_frame_text_eq)

lemma stored_text_no_control: "no_control s \<Longrightarrow> stored_text s = s"
  by (induction s) (auto simp: no_control_def stored_text_def frame_char_def run_char_def)

lemma stored_line_no_control:
  "no_control s \<Longrightarrow> 0x0A \<notin> set s \<Longrightarrow> stored_line s = s"
  by (induction s) (auto simp: no_control_def stored_line_def para_char_def run_char_def)

section \<open>Properties of the Extractor\<close>

text \<open>The loops of the Extractor in closed form.\<close>

lemma para_loop_eq:
  "para_loop d ps = d\<lparr>bullet_points := bullet_points d @ filter (\<lambda>t. t \<noteq> []) (map (\<lambda>p. strip (p_text p)) ps)\<rparr>"
  by (induction ps arbitrary: d) (auto simp: Let_def)

lemma shape_loop_past_title:
  "t = None \<or> (\<exists>j. t = Some j \<and> j < i) \<Longrightarrow>
   shape_loop t i d shs = d\<lparr>bullet_points := bullet_points d @ concat (map spec_shape_texts shs)\<rparr>"
proof (induction shs arbitrary: i d)
  case Nil
  then show ?case by simp
next
  case (Cons sh shs)
  have next_ok: "t = None \<or> (\<exists>j. t = Some j \<and> j < Suc i)"
    using Cons.prems by auto
  show ?case
  proof (cases sh)
    case (Sp s)
    have "Some i \<noteq> t" using Cons.prems by auto
    then show ?thesis
      using Sp Cons.IH [OF next_ok] by (simp add: para_loop_eq)
  next
    case (Graphic g k)
    then show ?thesis
      using Cons.IH [OF next_ok] by simp
  qed
qed

lemma shape_loop_before_title:
  "i \<le> j \<Longrightarrow> j < i + length shs \<Longrightarrow>
   shape_loop (Some j) i d shs =
     d\<lparr>bullet_points := bullet_points d @
         concat (map spec_shape_texts (take (j - i) shs @ drop (Suc (j - i)) shs))\<rparr>"
proof (induction shs arbitrary: i d)
  case Nil
  then show ?case by simp
next
  case (Cons sh shs)
  show ?case
  proof (cases "i = j")
    case True
    have past: "Some j = None \<or> (\<exists>k. Some j = Some k \<and> k < Suc i)"
      using True by simp
    show ?thesis
      using True shape_loop_past_title [OF past, of d shs]
      by (cases sh) simp_all
  next
    case False
    then have lt: "Suc i \<le> j" and len: "j < Suc i + length shs"
      using Cons.prems by auto
    have diff: "j - i = Suc (j - Suc i)"
      using lt by simp
    show ?thesis
      using False Cons.IH [OF lt len] diff
      by (cases sh) (simp_all add: para_loop_eq)
  qed
qed

lemma shapes_title_None:
  "(shapes_title i shs = None) = (\<not> list_ex is_title_placeholder shs)"
  by (induction shs arbitrary: i) (simp_all add: is_title_placeholder_def)

lemma shapes_title_Some:
  "shapes_title i shs = Some (j, sh) \<Longrightarrow>
   j = i + length (takeWhile (\<lambda>sh. \<not> is_title_placeholder sh) shs) \<and>
   j < i + length shs \<and>
   List.find is_title_placeholder shs = Some sh"
proof (induction shs arbitrary: i)
  case Nil
  then show ?case by simp
next
  case (Cons sh' shs)
  show ?case
  proof (cases "ph_idx sh' = Some 0")
    case True
    then show ?thesis using Cons.prems by (simp add: is_title_placeholder_def)
  next
    case False
    then show ?thesis
      using Cons.IH [of "Suc i"] Cons.prems by (simp add: is_title_placeholder_def)
  qed
qed

lemma find_title_None:
  "\<not> list_ex is_title_placeholder shs \<Longrightarrow> List.find is_title_placeholder shs = None"
  by (induction shs) auto

lemma extract_slide_eq:
  "extract_slide sl = (if title_without_text sl then Inl AttributeError else Inr (spec_record sl))"
proof (cases "shapes_title 0 (sl_shapes sl)")
  case None
  then have no: "\<not> list_ex is_title_placeholder (sl_shapes sl)"
    by (simp add: shapes_title_None)
  show ?thesis
    using None no find_title_None [OF no]
    by (simp add: extract_slide_def spec_record_def spec_heading_def spec_bullets_def
        spec_remaining_def spec_title_pos_def shape_loop_past_title title_without_text_def)
next
  case (Some a)
  obtain j sh where a: "a = (j, sh)" by (cases a)
  have st: "shapes_title 0 (sl_shapes sl) = Some (j, sh)"
    using Some a by simp
  have ex: "list_ex is_title_placeholder (sl_shapes sl)"
    using st shapes_title_None [of 0 "sl_shapes sl"] by auto
  note facts = shapes_title_Some [OF st]
  have j: "j = length (takeWhile (\<lambda>sh. \<not> is_title_placeholder sh) (sl_shapes sl))"
    and lt: "j < 0 + length (sl_shapes sl)"
    and fnd: "List.find is_title_placeholder (sl_shapes sl) = Some sh"
    using facts by simp_all
  show ?thesis
  proof (cases sh)
    case (Graphic g k)
    then show ?thesis
      using st fnd by (simp add: extract_slide_def title_without_text_def)
  next
    case (Sp s)
    have loop: "shape_loop (Some j) 0 d (sl_shapes sl) =
        d\<lparr>bullet_points := bullet_points d @
           concat (map spec_shape_texts (take j (sl_shapes sl) @ drop (Suc j) (sl_shapes sl)))\<rparr>" for d
      using shape_loop_before_title [of 0 j "sl_shapes sl" d] lt by simp
    have lhs: "extract_slide sl = Inr \<lparr>heading = strip (shape_text s), bullet_points =
        concat (map spec_shape_texts (take j (sl_shapes sl) @ drop (Suc j) (sl_shapes sl)))\<rparr>"
      using st Sp by (simp add: extract_slide_def loop)
    have pos: "spec_title_pos (sl_shapes sl) = Some j"
      using ex j by (simp add: spec_title_pos_def)
    have rhs: "spec_record sl = \<lparr>heading = strip (shape_text s), bullet_points =
        concat (map spec_shape_texts (take j (sl_shapes sl) @ drop (Suc j) (sl_shapes sl)))\<rparr>"
      using fnd pos Sp
      by (simp add: spec_record_def spec_heading_def spec_bullets_def spec_remaining_def)
    have "\<not> title_without_text sl"
      using fnd Sp by (simp add: title_without_text_def)
    then show ?thesis
      using lhs rhs by simp
  qed
qed

lemma slide_loop_eq:
  "slide_loop content sls =
   (if list_ex title_without_text sls then Inl AttributeError
    else Inr (content @ map spec_record sls))"
  by (induction sls arbitrary: content) (simp_all add: extract_slide_eq)

lemma extract_ppt_text_eq:
  "extract_ppt_text (Inr prs) =
   (if list_ex title_without_text (slides prs) then Inl AttributeError
    else Inr (map spec_record (slides prs)))"
  by (simp add: extract_ppt_text_def slide_loop_eq)

lemma no_text_no_texts:
  "list_all (\<lambda>sh. \<not> has_text_frame sh) shs \<Longrightarrow> concat (map spec_shape_texts shs) = []"
proof (induction shs)
  case Nil
  then show ?case by simp
next
  case (Cons sh shs)
  then show ?case by (cases sh) simp_all
qed

lemma no_text_find:
  "list_all (\<lambda>sh. \<not> has_text_frame sh) shs \<Longrightarrow> List.find P shs = Some (Sp s) \<Longrightarrow> False"
proof (induction shs)
  case Nil
  then show ?case by simp
next
  case (Cons sh shs)
  then show ?case by (cases sh) (auto split: if_splits)
qed

lemma no_text_record:
  assumes "list_all (\<lambda>sh. \<not> has_text_frame sh) (sl_shapes sl)"
  shows "spec_record sl = \<lparr>heading = [], bullet_points = []\<rparr>"
proof -
  have "spec_heading sl = []"
  proof (cases "List.find is_title_placeholder (sl_shapes sl)")
    case None
    then show ?thesis by (simp add: spec_heading_def)
  next
    case (Some sh)
    then show ?thesis
      using no_text_find [OF assms, of is_title_placeholder]
      by (cases sh) (auto simp: spec_heading_def)
  qed
  moreover have "list_all (\<lambda>sh. \<not> has_text_frame sh) (spec_remaining (sl_shapes sl))"
    using assms
    by (auto simp: spec_remaining_def list_all_iff split: option.splits
        dest: in_set_takeD in_set_dropD)
  then have "spec_bullets sl = []"
    by (simp add: spec_bullets_def no_text_no_texts)
  ultimately show ?thesis
    by (simp add: spec_record_def)
qed

text \<open>
  Claim C2. The claim asks for one record per slide of every parsed presentation. The
  Extractor gives that exactly when no slide has a title shape without a text frame:
  line 35 reads the text of the title shape without asking whether it has any, where
  the loop of line 37 asks every other shape. On the deck of two slides whose second
  slide has a picture in the placeholder of index 0 it raises \<^verbatim>\<open>AttributeError\<close> and
  returns no record.
\<close>

theorem extract_raises_on_picture_title:
  "length (slides picture_title_deck) = 2 \<and>
   extract_ppt_text (Inr picture_title_deck) = Inl AttributeError \<and>
   ((\<exists>recs. extract_ppt_text (Inr prs) = Inr recs \<and> length recs = length (slides prs)) \<longleftrightarrow>
      \<not> list_ex title_without_text (slides prs)) \<and>
   (extract_ppt_text (Inr prs) = Inl AttributeError \<longleftrightarrow>
      list_ex title_without_text (slides prs))"
proof -
  have "list_ex title_without_text (slides picture_title_deck)"
    by (simp add: picture_title_deck_def title_without_text_def is_title_placeholder_def
        text_sp_def)
  then have "extract_ppt_text (Inr picture_title_deck) = Inl AttributeError"
    by (simp add: extract_ppt_text_eq)
  moreover have "length (slides picture_title_deck) = 2"
    by (simp add: picture_title_deck_def)
  ultimately show ?thesis
    by (simp add: extract_ppt_text_eq)
qed

theorem extract_raises_on_picture_title_witness:
  "\<not> list_ex title_without_text (slides sample_deck) \<and>
   (\<exists>recs. extract_ppt_text (Inr sample_deck) = Inr recs \<and> length recs = 3)"
proof -
  have ok: "\<not> list_ex title_without_text (slides sample_deck)"
    by (simp add: sample_deck_def title_without_text_def is_title_placeholder_def text_sp_def)
  have n: "length (slides sample_deck) = 3"
    by (simp add: sample_deck_def)
  have "\<exists>recs. extract_ppt_text (Inr sample_deck) = Inr recs \<and>
      length recs = length (slides sample_deck)"
    using extract_raises_on_picture_title [of sample_deck] ok by blast
  then show ?thesis
    using ok n by simp
qed

text \<open>
  Claim C3. The claim asks for the empty record of a slide whose shapes all lack a text
  frame. On the slide whose only shape is a picture in the placeholder of index 0 the
  Extractor raises \<^verbatim>\<open>AttributeError\<close> instead. In general it raises exactly when some
  slide has a title shape without a text frame, and otherwise returns for every slide
  the record the specification words: the trimmed text of the title shape as heading,
  empty without a title shape, and the non-empty trimmed paragraphs of the other shapes
  with a text frame as bullet points, in document order.
\<close>

theorem extract_raises_on_non_text_title:
  "list_all (\<lambda>sh. \<not> has_text_frame sh) (sl_shapes (slides picture_only_deck ! 0)) \<and>
   extract_ppt_text (Inr picture_only_deck) = Inl AttributeError \<and>
   extract_ppt_text (Inr prs) =
     (if list_ex title_without_text (slides prs) then Inl AttributeError
      else Inr (map spec_record (slides prs)))"
proof -
  have "list_ex title_without_text (slides picture_only_deck)"
    by (simp add: picture_only_deck_def title_without_text_def is_title_placeholder_def)
  then have "extract_ppt_text (Inr picture_only_deck) = Inl AttributeError"
    by (simp add: extract_ppt_text_eq)
  moreover have "list_all (\<lambda>sh. \<not> has_text_frame sh) (sl_shapes (slides picture_only_deck ! 0))"
    by (simp add: picture_only_deck_def)
  ultimately show ?thesis
    by (simp add: extract_ppt_text_eq)
qed

theorem extract_raises_on_non_text_title_witness:
  "\<not> list_ex title_without_text (slides sample_deck) \<and>
   extract_ppt_text (Inr sample_deck) =
     Inr [\<lparr>heading = u ''Welcome'', bullet_points = [u ''2026'', u ''Q3'']\<rparr>,
          \<lparr>heading = u ''Plan'', bullet_points = [u ''first'', u ''second'', u ''third'']\<rparr>,
          \<lparr>heading = [], bullet_points = []\<rparr>]"
proof -
  have ok: "\<not> list_ex title_without_text (slides sample_deck)"
    by (simp add: sample_deck_def title_without_text_def is_title_placeholder_def text_sp_def)
  have "extract_ppt_text (Inr sample_deck) = Inr (map spec_record (slides sample_deck))"
    using extract_raises_on_non_text_title [of sample_deck] ok by simp
  moreover have "map spec_record (slides sample_deck) =
     [\<lparr>heading = u ''Welcome'', bullet_points = [u ''2026'', u ''Q3'']\<rparr>,
      \<lparr>heading = u ''Plan'', bullet_points = [u ''first'', u ''second'', u ''third'']\<rparr>,
      \<lparr>heading = [], bullet_points = []\<rparr>]"
    by (simp add: sample_deck_def spec_record_def spec_heading_def spec_bullets_def
        spec_remaining_def spec_title_pos_def is_title_placeholder_def text_sp_def
        new_paragraph_def shape_text_def frame_text_def join_lines_def strip_def isspace_def
        u_def)
  ultimately show ?thesis
    using ok by simp
qed

section \<open>Properties of the Builder\<close>

text \<open>The shapes of a content slide, when the Builder adds them and what they hold.\<close>

lemma update_first_frame_text:
  assumes "ps \<noteq> []" and "\<And>p. p_text (f p) = p_text p"
  shows "\<exists>ps'. update_first f ps = Inr ps' \<and> ps' \<noteq> [] \<and> frame_text ps' = frame_text ps"
  using assms by (cases ps) (auto simp: frame_text_def)

lemma update_first_Inr:
  assumes "update_first f ps = Inr ps'" and "\<And>p. p_text (f p) = p_text p"
  shows "ps' \<noteq> [] \<and> frame_text ps' = frame_text ps"
  using assms by (cases ps) (auto simp: frame_text_def)

lemma title_shape_Inr:
  assumes "title_shape h = Inr tsh"
  shows "sp_kind tsh = AutoShape ROUNDED_RECTANGLE \<and>
         sp_geom tsh = Some \<lparr>g_left = Inches 0.5, g_top = Inches 0.4,
                               g_width = Inches 9, g_height = Inches 1\<rparr> \<and>
         sp_fill tsh = Some (RGBColor 0 102 204) \<and>
         shape_text tsh = stored_text h"
proof -
  obtain ps where ps: "set_frame_text h = Inr ps"
    using assms by (cases "set_frame_text h") (simp_all add: title_shape_def)
  let ?f = "\<lambda>p. p\<lparr>p_font_size := Some (Pt 28), p_font_color := Some (RGBColor 255 255 255),
                        p_font_bold := Some True\<rparr>"
  obtain ps' where ps': "update_first ?f ps = Inr ps'"
    using assms ps by (cases "update_first ?f ps") (simp_all add: title_shape_def)
  have "frame_text ps' = stored_text h"
    using update_first_Inr [OF ps'] set_frame_text_Inr [OF ps] by simp
  then show ?thesis
    using assms ps ps' by (auto simp: title_shape_def add_shape_def shape_text_def)
qed

lemma title_shape_ok:
  assumes "xml_compatible h"
  shows "\<exists>tsh. title_shape h = Inr tsh"
proof -
  obtain ps where ps: "set_frame_text h = Inr ps"
    using set_frame_text_ok [OF assms] by blast
  have "ps \<noteq> []"
    using set_frame_text_Inr [OF ps] by simp
  then obtain ps' where "update_first
      (\<lambda>p. p\<lparr>p_font_size := Some (Pt 28), p_font_color := Some (RGBColor 255 255 255),
              p_font_bold := Some True\<rparr>) ps = Inr ps'"
    by (cases ps) auto
  then show ?thesis
    using ps by (simp add: title_shape_def)
qed

lemma chart_box_Inr:
  assumes "chart_box l = Inr cb"
  shows "sp_kind cb = AutoShape RECTANGLE \<and>
        sp_geom cb = Some \<lparr>g_left = Inches 5.5, g_top = Inches 5,
                             g_width = Inches 3.5, g_height = Inches 1\<rparr> \<and>
        sp_fill cb = Some (RGBColor 230 230 230) \<and>
        shape_text cb = stored_text l"
proof -
  obtain ps0 where ps0: "set_frame_text l = Inr ps0"
    using assms by (cases "set_frame_text l") (simp_all add: chart_box_def)
  let ?f = "\<lambda>p. p\<lparr>p_font_size := Some (Pt 14)\<rparr>"
  let ?g = "\<lambda>p. p\<lparr>p_font_color := Some (RGBColor 80 80 80)\<rparr>"
  obtain ps where ps: "update_first ?f ps0 = Inr ps"
    using assms ps0 by (cases "update_first ?f ps0") (simp_all add: chart_box_def)
  obtain ps' where ps': "update_first ?g ps = Inr ps'"
    using assms ps0 ps by (cases "update_first ?g ps") (simp_all add: chart_box_def)
  have "frame_text ps' = stored_text l"
    using update_first_Inr [OF ps'] update_first_Inr [OF ps] set_frame_text_Inr [OF ps0] by simp
  then show ?thesis
    using assms ps0 ps ps' by (auto simp: chart_box_def add_shape_def shape_text_def)
qed

lemma chart_box_ok:
  assumes "xml_compatible l"
  shows "\<exists>cb. chart_box l = Inr cb"
proof -
  obtain ps0 where ps0: "set_frame_text l = Inr ps0"
    using set_frame_text_ok [OF assms] by blast
  have "ps0 \<noteq> []"
    using set_frame_text_Inr [OF ps0] by simp
  then obtain p rest where "ps0 = p # rest"
    by (cases ps0) auto
  then show ?thesis
    using ps0 by (simp add: chart_box_def)
qed

lemma bullet_loop_Inr:
  "bullet_loop tf items = Inr tf' \<Longrightarrow>
   \<exists>ps. tf' = tf @ ps \<and>
        list_all2 (\<lambda>p b. \<exists>s. b = JStr s \<and> p_text p = stored_line s) ps items"
proof (induction items arbitrary: tf)
  case Nil
  then show ?case by simp
next
  case (Cons bp rest)
  obtain s where bp: "bp = JStr s"
    using Cons.prems by (cases bp) simp_all
  have ok: "xml_compatible s"
    using Cons.prems bp by (cases "xml_compatible s") (simp_all add: append_text_eq)
  let ?p = "new_paragraph\<lparr>p_text := stored_line s, p_font_size := Some (Pt 18), p_level := Some 0\<rparr>"
  have "bullet_loop (tf @ [?p]) rest = Inr tf'"
    using Cons.prems bp ok by (simp add: append_text_eq)
  from Cons.IH [OF this] obtain ps where
    tf': "tf' = (tf @ [?p]) @ ps"
    and rest: "list_all2 (\<lambda>p b. \<exists>s. b = JStr s \<and> p_text p = stored_line s) ps rest"
    by blast
  have "tf' = tf @ ?p # ps \<and>
      list_all2 (\<lambda>p b. \<exists>s. b = JStr s \<and> p_text p = stored_line s) (?p # ps) (bp # rest)"
    using tf' rest bp by simp
  then show ?case by blast
qed

lemma bullet_loop_ok:
  "list_all is_str items \<Longrightarrow> list_all compatible_str items \<Longrightarrow>
   \<exists>tf'. bullet_loop tf items = Inr tf'"
proof (induction items arbitrary: tf)
  case Nil
  then show ?case by simp
next
  case (Cons bp rest)
  then show ?case by (cases bp) (simp_all add: append_text_eq)
qed

lemma content_slide_Inr:
  assumes ok: "content_slide fmt s = Inr sl"
  shows "\<exists>tsh tb ps rest.
      sl = \<lparr>sl_layout = 6, sl_background = Some (RGBColor 240 248 255),
             sl_shapes = Sp tsh # Sp tb # rest\<rparr> \<and>
      sp_kind tsh = AutoShape ROUNDED_RECTANGLE \<and>
      sp_geom tsh = Some \<lparr>g_left = Inches 0.5, g_top = Inches 0.4,
                            g_width = Inches 9, g_height = Inches 1\<rparr> \<and>
      sp_fill tsh = Some (RGBColor 0 102 204) \<and>
      (\<exists>h. record_heading s = JStr h \<and> shape_text tsh = stored_text h) \<and>
      sp_kind tb = TextBox \<and>
      sp_word_wrap tb = Some True \<and>
      sp_paragraphs tb = new_paragraph # ps \<and>
      list_all2 (\<lambda>p b. \<exists>t. b = JStr t \<and> p_text p = stored_line t) ps (record_bullets s) \<and>
      (if truthy (record_chart_type s)
       then \<exists>cb. rest = [Sp cb] \<and>
              sp_kind cb = AutoShape RECTANGLE \<and>
              sp_geom cb = Some \<lparr>g_left = Inches 5.5, g_top = Inches 5,
                                   g_width = Inches 3.5, g_height = Inches 1\<rparr> \<and>
              sp_fill cb = Some (RGBColor 230 230 230) \<and>
              shape_text cb = stored_text (chart_label fmt (record_chart_type s))
       else rest = [])"
proof -
  obtain d where s: "s = JObj d"
    using ok by (cases s) (simp_all add: Let_def content_slide_def)
  define hv where "hv = dict_get d (u ''heading'') (JStr [])"
  define bv where "bv = dict_get d (u ''bullet_points'') (JArr [])"
  define ct where "ct = dict_get d (u ''chart_type'') JNull"
  obtain ht where ht: "hv = JStr ht"
    using ok s by (cases hv) (simp_all add: Let_def content_slide_def hv_def)
  obtain tsh where tsh: "title_shape ht = Inr tsh"
    using ok s ht
    by (cases "title_shape ht") (simp_all add: Let_def content_slide_def hv_def [symmetric])
  note tsh_props = title_shape_Inr [OF tsh]
  obtain items where items: "py_iter bv = Inr items"
    using ok s ht tsh
    by (cases "py_iter bv")
      (simp_all add: Let_def content_slide_def hv_def [symmetric] bv_def [symmetric])
  obtain tf where tf: "bullet_loop [new_paragraph] items = Inr tf"
    using ok s ht tsh items
    by (cases "bullet_loop [new_paragraph] items")
      (simp_all add: Let_def content_slide_def hv_def [symmetric] bv_def [symmetric]
        add_textbox_def)
  obtain ps where ps: "tf = [new_paragraph] @ ps"
    and ps_text: "list_all2 (\<lambda>p b. \<exists>t. b = JStr t \<and> p_text p = stored_line t) ps items"
    using bullet_loop_Inr [OF tf] by blast
  define tb where "tb = (add_textbox (Inches 0.8) (Inches 1.6) (Inches 8.5) (Inches 4.5))
      \<lparr>sp_word_wrap := Some True, sp_paragraphs := tf\<rparr>"
  have heading: "\<exists>h. record_heading s = JStr h \<and> shape_text tsh = stored_text h"
    using s ht tsh_props by (simp add: record_heading_def hv_def)
  have bullets: "list_all2 (\<lambda>p b. \<exists>t. b = JStr t \<and> p_text p = stored_line t) ps (record_bullets s)"
    using s items ps_text by (simp add: record_bullets_def bv_def)
  have chart: "record_chart_type s = ct"
    using s by (simp add: record_chart_type_def ct_def)
  have tb_props: "sp_kind tb = TextBox" "sp_word_wrap tb = Some True"
    "sp_paragraphs tb = new_paragraph # ps"
    using ps by (simp_all add: tb_def add_textbox_def)
  show ?thesis
  proof (cases "truthy ct")
    case False
    have "sl = \<lparr>sl_layout = 6, sl_background = Some (RGBColor 240 248 255),
        sl_shapes = [Sp tsh, Sp tb]\<rparr>"
      using ok s ht tsh items tf False
      by (simp add: Let_def content_slide_def hv_def [symmetric] bv_def [symmetric]
          ct_def [symmetric] add_textbox_def add_slide_def tb_def)
    then show ?thesis
      using False tsh_props heading tb_props bullets chart by auto
  next
    case True
    obtain cb where cb: "chart_box (chart_label fmt ct) = Inr cb"
      using ok s ht tsh items tf True
      by (cases "chart_box (chart_label fmt ct)")
        (simp_all add: Let_def content_slide_def hv_def [symmetric] bv_def [symmetric]
          ct_def [symmetric] add_textbox_def)
    note cb_props = chart_box_Inr [OF cb]
    have "sl = \<lparr>sl_layout = 6, sl_background = Some (RGBColor 240 248 255),
        sl_shapes = [Sp tsh, Sp tb, Sp cb]\<rparr>"
      using ok s ht tsh items tf True cb
      by (simp add: Let_def content_slide_def hv_def [symmetric] bv_def [symmetric]
          ct_def [symmetric] add_textbox_def add_slide_def tb_def)
    then show ?thesis
      using True tsh_props heading tb_props bullets chart cb_props by auto
  qed
qed

lemma dict_get_JNull:
  "dict_get d k JNull = (case map_of d k of None \<Rightarrow> JNull | Some v \<Rightarrow> v)"
  by (simp add: dict_get_def)

lemma content_slide_ok:
  assumes shaped: "record_shaped s" and compat: "record_compatible s"
  shows "\<exists>sl. content_slide fmt s = Inr sl"
proof -
  obtain d where s: "s = JObj d"
    using shaped by (cases s) simp_all
  define hv where "hv = dict_get d (u ''heading'') (JStr [])"
  define bv where "bv = dict_get d (u ''bullet_points'') (JArr [])"
  define ct where "ct = dict_get d (u ''chart_type'') JNull"
  have "\<exists>ht. hv = JStr ht \<and> xml_compatible ht"
  proof (cases "map_of d (u ''heading'')")
    case None
    then show ?thesis by (simp add: hv_def dict_get_def xml_compatible_def)
  next
    case (Some v)
    then show ?thesis
      using shaped compat s by (cases v) (simp_all add: hv_def dict_get_def)
  qed
  then obtain ht where ht: "hv = JStr ht" and ht_ok: "xml_compatible ht"
    by blast
  obtain tsh where tsh: "title_shape ht = Inr tsh"
    using title_shape_ok [OF ht_ok] by blast
  have "\<exists>items. bv = JArr items \<and> list_all is_str items \<and> list_all compatible_str items"
  proof (cases "map_of d (u ''bullet_points'')")
    case None
    then show ?thesis by (simp add: bv_def dict_get_def)
  next
    case (Some v)
    then show ?thesis
      using shaped compat s by (cases v) (simp_all add: bv_def dict_get_def)
  qed
  then obtain items where items: "bv = JArr items" and strs: "list_all is_str items"
    and oks: "list_all compatible_str items"
    by blast
  obtain tf where tf: "bullet_loop [new_paragraph] items = Inr tf"
    using bullet_loop_ok [OF strs oks] by blast
  show ?thesis
  proof (cases "truthy ct")
    case False
    then show ?thesis
      using s ht tsh items tf
      by (simp add: Let_def content_slide_def hv_def [symmetric] bv_def [symmetric]
          ct_def [symmetric] add_textbox_def)
  next
    case True
    have "\<exists>c. ct = JStr c \<and> xml_compatible c"
    proof (cases "map_of d (u ''chart_type'')")
      case None
      then show ?thesis using True by (simp add: ct_def dict_get_def)
    next
      case (Some v)
      then show ?thesis
        using shaped compat s by (cases v) (simp_all add: ct_def dict_get_def)
    qed
    then obtain c where c: "ct = JStr c" and c_ok: "xml_compatible c"
      by blast
    have "xml_compatible (chart_label fmt ct)"
      using c c_ok by (simp add: chart_label_def) (simp add: xml_compatible_def u_def)
    then obtain cb where "chart_box (chart_label fmt ct) = Inr cb"
      using chart_box_ok by blast
    then show ?thesis
      using True s ht tsh items tf
      by (simp add: Let_def content_slide_def hv_def [symmetric] bv_def [symmetric]
          ct_def [symmetric] add_textbox_def)
  qed
qed

lemma slides_loop_Inr:
  "slides_loop fmt prs recs = Inr prs' \<Longrightarrow>
   \<exists>sls. slides prs' = slides prs @ sls \<and>
         list_all2 (\<lambda>r sl. content_slide fmt r = Inr sl) recs sls"
proof (induction recs arbitrary: prs)
  case Nil
  then show ?case by simp
next
  case (Cons r rest)
  obtain sl where sl: "content_slide fmt r = Inr sl"
    using Cons.prems by (cases "content_slide fmt r") simp_all
  then have "slides_loop fmt (prs\<lparr>slides := slides prs @ [sl]\<rparr>) rest = Inr prs'"
    using Cons.prems by simp
  from Cons.IH [OF this] obtain sls where
    "slides prs' = (slides prs @ [sl]) @ sls"
    and "list_all2 (\<lambda>r sl. content_slide fmt r = Inr sl) rest sls"
    by auto
  then have "slides prs' = slides prs @ sl # sls \<and>
      list_all2 (\<lambda>r sl. content_slide fmt r = Inr sl) (r # rest) (sl # sls)"
    using sl by simp
  then show ?case by blast
qed

lemma slides_loop_ok:
  "list_all record_shaped recs \<Longrightarrow> list_all record_compatible recs \<Longrightarrow>
   \<exists>prs'. slides_loop fmt prs recs = Inr prs'"
proof (induction recs arbitrary: prs)
  case Nil
  then show ?case by simp
next
  case (Cons r rest)
  then obtain sl where "content_slide fmt r = Inr sl"
    using content_slide_ok [of r fmt] by auto
  then show ?case
    using Cons by simp
qed

lemma subtitle_text: "stored_text (u ''Enhanced by GPT-4'') = u ''Enhanced by GPT-4''"
  by (rule stored_text_no_control) (simp add: no_control_def u_def)

lemma fixed_texts_compatible:
  "xml_compatible (u ''Enhanced by GPT-4'')" "xml_compatible (u ''Untitled Presentation'')"
  by (simp_all add: xml_compatible_def u_def)

lemma title_slide_Inr:
  assumes "title_slide content = Inr ts"
  shows "\<exists>ttl sub t. ts = \<lparr>sl_layout = 0, sl_background = None, sl_shapes = [Sp ttl, Sp sub]\<rparr> \<and>
      sp_kind ttl = Placeholder 0 \<and> deck_title content = JStr t \<and>
      shape_text ttl = stored_text t \<and>
      sp_kind sub = Placeholder 1 \<and> shape_text sub = u ''Enhanced by GPT-4''"
proof -
  obtain d where c: "content = JObj d"
    using assms by (cases content) (simp_all add: title_slide_def)
  define tv where "tv = dict_get d (u ''title'') (JStr (u ''Untitled Presentation''))"
  obtain t where t: "tv = JStr t"
    using assms c by (cases tv) (simp_all add: title_slide_def tv_def)
  obtain ps where ps: "set_frame_text t = Inr ps"
    using assms c t
    by (cases "set_frame_text t")
      (simp_all add: title_slide_def tv_def [symmetric] set_title_text_def add_slide_def
        placeholder_def)
  obtain qs where qs: "set_frame_text (u ''Enhanced by GPT-4'') = Inr qs"
    using set_frame_text_ok [OF fixed_texts_compatible(1)] by blast
  have "ts = \<lparr>sl_layout = 0, sl_background = None, sl_shapes =
      [Sp ((placeholder 0)\<lparr>sp_paragraphs := ps\<rparr>),
       Sp ((placeholder 1)\<lparr>sp_paragraphs := qs\<rparr>)]\<rparr>"
    using assms c t ps qs
    by (simp add: title_slide_def tv_def [symmetric] set_title_text_def add_slide_def
        set_placeholder_text_def placeholder_def)
  moreover have "deck_title content = JStr t"
    using c t by (simp add: deck_title_def tv_def)
  moreover have "frame_text ps = stored_text t"
    using set_frame_text_Inr [OF ps] by simp
  moreover have "frame_text qs = u ''Enhanced by GPT-4''"
    using set_frame_text_Inr [OF qs] subtitle_text by simp
  ultimately show ?thesis
    by (simp add: placeholder_def shape_text_def)
qed

lemma title_slide_ok:
  assumes "str_or_absent (map_of d (u ''title''))"
    and "compatible_str (dict_get d (u ''title'') JNull)"
  shows "\<exists>ts. title_slide (JObj d) = Inr ts"
proof -
  define tv where "tv = dict_get d (u ''title'') (JStr (u ''Untitled Presentation''))"
  have "\<exists>t. tv = JStr t \<and> xml_compatible t"
  proof (cases "map_of d (u ''title'')")
    case None
    then show ?thesis by (simp add: tv_def dict_get_def fixed_texts_compatible)
  next
    case (Some v)
    then show ?thesis
      using assms by (cases v) (simp_all add: tv_def dict_get_def)
  qed
  then obtain t where t: "tv = JStr t" and t_ok: "xml_compatible t"
    by blast
  obtain ps where ps: "set_frame_text t = Inr ps"
    using set_frame_text_ok [OF t_ok] by blast
  obtain qs where qs: "set_frame_text (u ''Enhanced by GPT-4'') = Inr qs"
    using set_frame_text_ok [OF fixed_texts_compatible(1)] by blast
  show ?thesis
    using t ps qs
    by (simp add: title_slide_def tv_def [symmetric] set_title_text_def add_slide_def
        set_placeholder_text_def placeholder_def)
qed

lemma build_presentation_Inr:
  assumes "build_presentation fmt content = Inr prs"
  shows "\<exists>ts sls. title_slide content = Inr ts \<and> slides prs = ts # sls \<and>
      list_all2 (\<lambda>r sl. content_slide fmt r = Inr sl) (deck_records content) sls"
proof -
  obtain ts where ts: "title_slide content = Inr ts"
    using assms by (cases "title_slide content") (simp_all add: build_presentation_def)
  obtain v where v: "py_get content (u ''slides'') (JArr []) = Inr v"
    using assms ts
    by (cases "py_get content (u ''slides'') (JArr [])") (simp_all add: build_presentation_def)
  obtain recs where recs: "py_iter v = Inr recs"
    using assms ts v by (cases "py_iter v") (simp_all add: build_presentation_def)
  have "slides_loop fmt \<lparr>slides = [ts]\<rparr> recs = Inr prs"
    using assms ts v recs by (simp add: build_presentation_def)
  from slides_loop_Inr [OF this] obtain sls where
    "slides prs = ts # sls" and "list_all2 (\<lambda>r sl. content_slide fmt r = Inr sl) recs sls"
    by auto
  moreover have "deck_records content = recs"
    using v recs by (simp add: deck_records_def)
  ultimately show ?thesis
    using ts by simp
qed

lemma build_presentation_ok:
  assumes shaped: "deck_shaped content" and compat: "deck_compatible content"
  shows "\<exists>prs. build_presentation fmt content = Inr prs"
proof -
  obtain d where c: "content = JObj d"
    using shaped by (cases content) simp_all
  obtain ts where ts: "title_slide content = Inr ts"
    using shaped compat c title_slide_ok [of d] by auto
  define sv where "sv = dict_get d (u ''slides'') (JArr [])"
  have "\<exists>recs. sv = JArr recs \<and> list_all record_shaped recs \<and> list_all record_compatible recs"
  proof (cases "map_of d (u ''slides'')")
    case None
    then show ?thesis by (simp add: sv_def dict_get_def)
  next
    case (Some v)
    then show ?thesis
      using shaped compat c by (cases v) (simp_all add: sv_def dict_get_def)
  qed
  then obtain recs where recs: "sv = JArr recs" and sh: "list_all record_shaped recs"
    and ok: "list_all record_compatible recs"
    by blast
  obtain prs where "slides_loop fmt \<lparr>slides = [ts]\<rparr> recs = Inr prs"
    using slides_loop_ok [OF sh ok] by blast
  then show ?thesis
    using c ts recs by (simp add: build_presentation_def sv_def [symmetric])
qed

lemma json_to_ppt_Inr:
  "json_to_ppt fmt we content path fs = Inr r \<longleftrightarrow>
   (\<exists>prs. build_presentation fmt content = Inr prs \<and> we path = None \<and>
          r = (path, fs(path \<mapsto> prs)))"
  by (cases "build_presentation fmt content"; cases "we path")
    (auto simp: json_to_ppt_def save_def)

lemma json_to_ppt_slides:
  assumes "json_to_ppt fmt we content path fs = Inr (p, fs')"
  shows "\<exists>prs ts sls. p = path \<and> fs' = fs(path \<mapsto> prs) \<and> fs' p = Some prs \<and>
      title_slide content = Inr ts \<and> slides prs = ts # sls \<and>
      length sls = length (deck_records content) \<and>
      (\<forall>i < length (deck_records content).
         content_slide fmt (deck_records content ! i) = Inr (sls ! i))"
proof -
  obtain prs where b: "build_presentation fmt content = Inr prs"
    and r: "(p, fs') = (path, fs(path \<mapsto> prs))"
    using assms json_to_ppt_Inr [of fmt we content path fs "(p, fs')"] by blast
  obtain ts sls where ts: "title_slide content = Inr ts" and sl: "slides prs = ts # sls"
    and all: "list_all2 (\<lambda>r sl. content_slide fmt r = Inr sl) (deck_records content) sls"
    using build_presentation_Inr [OF b] by blast
  have "length sls = length (deck_records content)"
    using all by (simp add: list_all2_lengthD)
  moreover have "\<forall>i < length (deck_records content).
      content_slide fmt (deck_records content ! i) = Inr (sls ! i)"
    using all by (simp add: list_all2_conv_all_nth)
  ultimately show ?thesis
    using r ts sl by auto
qed

lemma json_to_ppt_ok:
  assumes "deck_shaped content" and "deck_compatible content" and "we path = None"
  shows "\<exists>prs. json_to_ppt fmt we content path fs = Inr (path, fs(path \<mapsto> prs))"
proof -
  obtain prs where "build_presentation fmt content = Inr prs"
    using build_presentation_ok [OF assms(1,2)] by blast
  then show ?thesis
    using assms(3) json_to_ppt_Inr [of fmt we content path fs] by blast
qed

text \<open>The definitions that evaluate a call of the Builder on a given deck.\<close>

lemmas builder_defs =
  json_to_ppt_def save_def build_presentation_def title_slide_def set_title_text_def
  set_placeholder_text_def add_slide_def placeholder_def content_slide_def title_shape_def
  chart_box_def chart_label_def add_shape_def add_textbox_def set_frame_text_eq
  append_text_eq split_lines_def stored_line_def para_char_def run_char_def hex_digit_def
  xml_compatible_def new_paragraph_def dict_get_def Let_def u_def
  saved_texts_def shape_text_def frame_text_def join_lines_def writable_def no_format_def

text \<open>
  Claim C1, as stated, fails. The deck whose one record has the heading \<^verbatim>\<open>A\<close>, carriage
  return, \<^verbatim>\<open>B\<close> has the shape of the data model and is built, but the title shape of
  its slide reads \<^verbatim>\<open>A_x000D_B\<close>; the deck whose heading holds U+FFFF has the shape of
  the data model and the Builder raises \<^verbatim>\<open>ValueError\<close>.
\<close>

theorem builder_heading_counterexample:
  "deck_shaped cr_heading_deck \<and>
   record_heading (deck_records cr_heading_deck ! 0) = JStr [0x41, 0x0D, 0x42] \<and>
   saved_texts (json_to_ppt no_format writable cr_heading_deck sample_path no_files) =
     Inr [[u ''Untitled Presentation'', u ''Enhanced by GPT-4''], [u ''A_x000D_B'', []]] \<and>
   u ''A_x000D_B'' \<noteq> [0x41, 0x0D, 0x42] \<and>
   deck_shaped ffff_heading_deck \<and>
   json_to_ppt no_format writable ffff_heading_deck sample_path no_files = Inl ValueError"
proof -
  have "deck_shaped cr_heading_deck" and "deck_shaped ffff_heading_deck"
    by (simp_all add: cr_heading_deck_def ffff_heading_deck_def u_def)
  moreover have "record_heading (deck_records cr_heading_deck ! 0) = JStr [0x41, 0x0D, 0x42]"
    by (simp add: cr_heading_deck_def record_heading_def deck_records_def dict_get_def u_def)
  moreover have "saved_texts (json_to_ppt no_format writable cr_heading_deck sample_path no_files) =
     Inr [[u ''Untitled Presentation'', u ''Enhanced by GPT-4''], [u ''A_x000D_B'', []]]"
    by (simp add: cr_heading_deck_def no_files_def builder_defs)
  moreover have "u ''A_x000D_B'' \<noteq> [0x41, 0x0D, 0x42]"
    by (simp add: u_def)
  moreover have "json_to_ppt no_format writable ffff_heading_deck sample_path no_files =
      Inl ValueError"
    by (simp add: ffff_heading_deck_def no_files_def builder_defs)
  ultimately show ?thesis by blast
qed

text \<open>
  Claim C1, amended. A deck of the shape of the data model whose strings XML can hold,
  written to a path that can be written, is built without error. Whenever the Builder
  returns, the presentation it saved has one slide more than the deck has slide
  records: the title slide first, then one slide per record in record order, and the
  text of the dark blue title shape of each of them is the heading of its record with
  every control character the library escapes written \<^verbatim>\<open>_xHHHH_\<close>: the heading itself
  when it has no such character, the empty str when the record has no \<^verbatim>\<open>heading\<close> key.
\<close>

theorem builder_slide_count_and_headings:
  "(deck_shaped content \<and> deck_compatible content \<and> we path = None \<longrightarrow>
      (\<exists>r. json_to_ppt fmt we content path fs = Inr r)) \<and>
   (\<forall>p fs'. json_to_ppt fmt we content path fs = Inr (p, fs') \<longrightarrow>
      (\<exists>prs. fs' p = Some prs \<and>
         length (slides prs) = 1 + length (deck_records content) \<and>
         sl_layout (slides prs ! 0) = 0 \<and>
         (\<forall>i < length (deck_records content).
            \<exists>tsh rest h.
              sl_layout (slides prs ! (i + 1)) = 6 \<and>
              sl_shapes (slides prs ! (i + 1)) = Sp tsh # rest \<and>
              sp_fill tsh = Some (RGBColor 0 102 204) \<and>
              record_heading (deck_records content ! i) = JStr h \<and>
              shape_text tsh = stored_text h \<and>
              (no_control h \<longrightarrow> shape_text tsh = h) \<and>
              (\<forall>d. deck_records content ! i = JObj d \<and> map_of d (u ''heading'') = None \<longrightarrow>
                 shape_text tsh = []))))"
proof (intro conjI allI impI)
  assume "deck_shaped content \<and> deck_compatible content \<and> we path = None"
  then show "\<exists>r. json_to_ppt fmt we content path fs = Inr r"
    using json_to_ppt_ok [of content we path fmt fs] by blast
next
  fix p fs'
  assume ok: "json_to_ppt fmt we content path fs = Inr (p, fs')"
  obtain prs ts sls where f: "fs' p = Some prs" and ts: "title_slide content = Inr ts"
    and sl: "slides prs = ts # sls" and len: "length sls = length (deck_records content)"
    and each: "\<forall>i < length (deck_records content).
         content_slide fmt (deck_records content ! i) = Inr (sls ! i)"
    using json_to_ppt_slides [OF ok] by blast
  have layout: "sl_layout ts = 0"
    using title_slide_Inr [OF ts] by auto
  have "\<exists>tsh rest h.
      sl_layout (slides prs ! (i + 1)) = 6 \<and>
      sl_shapes (slides prs ! (i + 1)) = Sp tsh # rest \<and>
      sp_fill tsh = Some (RGBColor 0 102 204) \<and>
      record_heading (deck_records content ! i) = JStr h \<and>
      shape_text tsh = stored_text h \<and>
      (no_control h \<longrightarrow> shape_text tsh = h) \<and>
      (\<forall>d. deck_records content ! i = JObj d \<and> map_of d (u ''heading'') = None \<longrightarrow>
         shape_text tsh = [])"
    if i: "i < length (deck_records content)" for i
  proof -
    have c: "content_slide fmt (deck_records content ! i) = Inr (sls ! i)"
      using each i by simp
    obtain tsh tb rest h where shapes: "sl_layout (sls ! i) = 6"
      "sl_shapes (sls ! i) = Sp tsh # Sp tb # rest"
      and fill: "sp_fill tsh = Some (RGBColor 0 102 204)"
      and heading: "record_heading (deck_records content ! i) = JStr h"
      and stored: "shape_text tsh = stored_text h"
      using content_slide_Inr [OF c] by auto
    have plain: "no_control h \<longrightarrow> shape_text tsh = h"
      using stored stored_text_no_control [of h] by simp
    have "shape_text tsh = []"
      if "deck_records content ! i = JObj d \<and> map_of d (u ''heading'') = None" for d
    proof -
      have "h = []"
        using that heading by (simp add: record_heading_def dict_get_def)
      then show ?thesis
        using stored by (simp add: stored_text_def)
    qed
    then show ?thesis
      using shapes fill heading stored plain sl by auto
  qed
  then show "\<exists>prs. fs' p = Some prs \<and>
         length (slides prs) = 1 + length (deck_records content) \<and>
         sl_layout (slides prs ! 0) = 0 \<and>
         (\<forall>i < length (deck_records content).
            \<exists>tsh rest h.
              sl_layout (slides prs ! (i + 1)) = 6 \<and>
              sl_shapes (slides prs ! (i + 1)) = Sp tsh # rest \<and>
              sp_fill tsh = Some (RGBColor 0 102 204) \<and>
              record_heading (deck_records content ! i) = JStr h \<and>
              shape_text tsh = stored_text h \<and>
              (no_control h \<longrightarrow> shape_text tsh = h) \<and>
              (\<forall>d. deck_records content ! i = JObj d \<and> map_of d (u ''heading'') = None \<longrightarrow>
                 shape_text tsh = []))"
    using f sl len layout by auto
qed

theorem builder_slide_count_and_headings_witness:
  "deck_shaped sample_enhanced \<and> deck_compatible sample_enhanced \<and>
   (\<exists>p fs' prs tsh1 rest1 tsh2 rest2.
      json_to_ppt (\<lambda>v. []) (\<lambda>p. None) sample_enhanced sample_path Map.empty = Inr (p, fs') \<and>
      fs' p = Some prs \<and> length (slides prs) = 3 \<and>
      sl_shapes (slides prs ! 1) = Sp tsh1 # rest1 \<and> shape_text tsh1 = u ''Sales'' \<and>
      sl_shapes (slides prs ! 2) = Sp tsh2 # rest2 \<and> shape_text tsh2 = [])"
proof -
  have shaped: "deck_shaped sample_enhanced"
    by (simp add: sample_enhanced_def u_def)
  have compat: "deck_compatible sample_enhanced"
    by (simp add: sample_enhanced_def dict_get_def xml_compatible_def u_def)
  have len: "length (deck_records sample_enhanced) = 2"
    by (simp add: sample_enhanced_def deck_records_def dict_get_def u_def)
  have h0: "record_heading (deck_records sample_enhanced ! 0) = JStr (u ''Sales'')"
    and h1: "record_heading (deck_records sample_enhanced ! 1) = JStr []"
    by (simp_all add: sample_enhanced_def deck_records_def record_heading_def dict_get_def u_def)
  have plain: "no_control (u ''Sales'')" "no_control []"
    by (simp_all add: no_control_def u_def)
  note T = builder_slide_count_and_headings
    [of sample_enhanced "\<lambda>p. None" sample_path "\<lambda>v. []" Map.empty]
  obtain r where "json_to_ppt (\<lambda>v. []) (\<lambda>p. None) sample_enhanced sample_path Map.empty = Inr r"
    using T shaped compat by blast
  then obtain p fs' where
    r: "json_to_ppt (\<lambda>v. []) (\<lambda>p. None) sample_enhanced sample_path Map.empty = Inr (p, fs')"
    by (cases r) auto
  obtain prs where f: "fs' p = Some prs"
    and n: "length (slides prs) = 1 + length (deck_records sample_enhanced)"
    and each: "\<forall>i < length (deck_records sample_enhanced).
            \<exists>tsh rest h.
              sl_layout (slides prs ! (i + 1)) = 6 \<and>
              sl_shapes (slides prs ! (i + 1)) = Sp tsh # rest \<and>
              sp_fill tsh = Some (RGBColor 0 102 204) \<and>
              record_heading (deck_records sample_enhanced ! i) = JStr h \<and>
              shape_text tsh = stored_text h \<and>
              (no_control h \<longrightarrow> shape_text tsh = h) \<and>
              (\<forall>d. deck_records sample_enhanced ! i = JObj d \<and> map_of d (u ''heading'') = None \<longrightarrow>
                 shape_text tsh = [])"
    using T r by blast
  obtain tsh1 rest1 where "sl_shapes (slides prs ! 1) = Sp tsh1 # rest1"
    and "shape_text tsh1 = u ''Sales''"
    using each [rule_format, of 0] len h0 plain by auto
  moreover obtain tsh2 rest2 where "sl_shapes (slides prs ! 2) = Sp tsh2 # rest2"
    and "shape_text tsh2 = []"
    using each [rule_format, of 1] len h1 plain by (auto simp: numeral_2_eq_2)
  ultimately show ?thesis
    using shaped compat r f n len by auto
qed

lemma chart_box_lower_right:
  "sp_geom cb = Some \<lparr>g_left = Inches 5.5, g_top = Inches 5,
                       g_width = Inches 3.5, g_height = Inches 1\<rparr> \<Longrightarrow> in_lower_right cb"
  by (simp add: in_lower_right_def Inches_def slide_width_def slide_height_def)

lemma stored_text_append: "stored_text (a @ b) = stored_text a @ stored_text b"
  by (simp add: stored_text_def)

lemma stored_chart_label:
  "stored_text (chart_label fmt v) = u ''['' @ stored_text (py_format fmt v) @ u '' chart placeholder]''"
proof -
  have "stored_text (u ''['') = u ''[''"
    and "stored_text (u '' chart placeholder]'') = u '' chart placeholder]''"
    by (rule stored_text_no_control, simp add: no_control_def u_def)+
  then show ?thesis
    by (simp add: chart_label_def stored_text_append)
qed

text \<open>
  Claim C7, as stated, fails. The record whose chart type is \<^verbatim>\<open>p\<close> followed by a carriage
  return gets a rectangle that reads \<^verbatim>\<open>[p_x000D_ chart placeholder]\<close>, which is not the
  chart type between the brackets; for the record whose chart type is U+FFFF, a chart
  type that is not empty, the Builder raises \<^verbatim>\<open>ValueError\<close> and adds no rectangle.
\<close>

theorem chart_placeholder_counterexample:
  "record_chart_type (deck_records cr_chart_deck ! 0) = JStr [0x70, 0x0D] \<and>
   saved_texts (json_to_ppt no_format writable cr_chart_deck sample_path no_files) =
     Inr [[u ''Untitled Presentation'', u ''Enhanced by GPT-4''],
          [[], [], u ''[p_x000D_ chart placeholder]'']] \<and>
   u ''[p_x000D_ chart placeholder]'' \<noteq> u ''['' @ [0x70, 0x0D] @ u '' chart placeholder]'' \<and>
   record_chart_type (deck_records ffff_chart_deck ! 0) = JStr [0xFFFF] \<and>
   json_to_ppt no_format writable ffff_chart_deck sample_path no_files = Inl ValueError"
proof -
  have "record_chart_type (deck_records cr_chart_deck ! 0) = JStr [0x70, 0x0D]"
    and "record_chart_type (deck_records ffff_chart_deck ! 0) = JStr [0xFFFF]"
    by (simp_all add: cr_chart_deck_def ffff_chart_deck_def record_chart_type_def
        deck_records_def dict_get_def u_def)
  moreover have "saved_texts (json_to_ppt no_format writable cr_chart_deck sample_path no_files) =
     Inr [[u ''Untitled Presentation'', u ''Enhanced by GPT-4''],
          [[], [], u ''[p_x000D_ chart placeholder]'']]"
    by (simp add: cr_chart_deck_def no_files_def builder_defs)
  moreover have "u ''[p_x000D_ chart placeholder]'' \<noteq>
      u ''['' @ [0x70, 0x0D] @ u '' chart placeholder]''"
    by (simp add: u_def)
  moreover have "json_to_ppt no_format writable ffff_chart_deck sample_path no_files =
      Inl ValueError"
    by (simp add: ffff_chart_deck_def no_files_def builder_defs)
  ultimately show ?thesis by blast
qed

text \<open>
  Claim C7, amended. A deck of the shape of the data model whose strings XML can hold,
  written to a path that can be written, is built without error. Whenever the Builder
  returns, the slide of each slide record holds the gray rectangle exactly when the
  chart type of the record is true in the sense of Python; for a chart type that is a
  string this is exactly when the string is not empty, and a record without the key has
  no rectangle. The rectangle is the last shape of the slide, lies in the lower right
  quarter and its text is \<^verbatim>\<open>[\<close>, the chart type with every control character the
  library escapes written \<^verbatim>\<open>_xHHHH_\<close>, \<^verbatim>\<open> chart placeholder]\<close>: the chart type itself
  between the two when it has no such character. Every shape of every slide is a shape
  with a text frame: no chart, picture or other graphic is ever added.
\<close>

theorem chart_placeholder_iff_chart_type:
  "(deck_shaped content \<and> deck_compatible content \<and> we path = None \<longrightarrow>
      (\<exists>r. json_to_ppt fmt we content path fs = Inr r)) \<and>
   (\<forall>p fs'. json_to_ppt fmt we content path fs = Inr (p, fs') \<longrightarrow>
     (\<exists>prs. fs' p = Some prs \<and>
       length (slides prs) = 1 + length (deck_records content) \<and>
       (\<forall>sl \<in> set (slides prs). \<forall>sh \<in> set (sl_shapes sl). has_text_frame sh) \<and>
       (\<forall>i < length (deck_records content).
          \<exists>tsh tb rest.
            sl_shapes (slides prs ! (i + 1)) = Sp tsh # Sp tb # rest \<and>
            (list_ex is_chart_box (sl_shapes (slides prs ! (i + 1))) \<longleftrightarrow>
               truthy (record_chart_type (deck_records content ! i))) \<and>
            (truthy (record_chart_type (deck_records content ! i)) \<longrightarrow>
               (\<exists>cb. rest = [Sp cb] \<and> is_chart_box (Sp cb) \<and> in_lower_right cb \<and>
                  shape_text cb =
                    u ''['' @ stored_text (py_format fmt (record_chart_type (deck_records content ! i)))
                      @ u '' chart placeholder]'')) \<and>
            (\<forall>c. record_chart_type (deck_records content ! i) = JStr c \<longrightarrow>
               (list_ex is_chart_box (sl_shapes (slides prs ! (i + 1))) \<longleftrightarrow> c \<noteq> []) \<and>
               (c \<noteq> [] \<longrightarrow>
                  (\<exists>cb. rest = [Sp cb] \<and> is_chart_box (Sp cb) \<and> in_lower_right cb \<and>
                     shape_text cb = u ''['' @ stored_text c @ u '' chart placeholder]'' \<and>
                     (no_control c \<longrightarrow>
                        shape_text cb = u ''['' @ c @ u '' chart placeholder]'')))) \<and>
            (\<forall>d. deck_records content ! i = JObj d \<and> map_of d (u ''chart_type'') = None \<longrightarrow>
               \<not> list_ex is_chart_box (sl_shapes (slides prs ! (i + 1)))))))"
proof (intro conjI allI impI)
  assume "deck_shaped content \<and> deck_compatible content \<and> we path = None"
  then show "\<exists>r. json_to_ppt fmt we content path fs = Inr r"
    using json_to_ppt_ok [of content we path fmt fs] by blast
next
  fix p fs'
  assume ok: "json_to_ppt fmt we content path fs = Inr (p, fs')"
  obtain prs ts sls where f: "fs' p = Some prs" and ts: "title_slide content = Inr ts"
    and sl: "slides prs = ts # sls" and len: "length sls = length (deck_records content)"
    and each: "\<forall>i < length (deck_records content).
         content_slide fmt (deck_records content ! i) = Inr (sls ! i)"
    using json_to_ppt_slides [OF ok] by blast
  let ?P = "\<lambda>i tsh tb rest.
          sl_shapes (sls ! i) = Sp tsh # Sp tb # rest \<and>
          (list_ex is_chart_box (sl_shapes (sls ! i)) \<longleftrightarrow>
             truthy (record_chart_type (deck_records content ! i))) \<and>
          (truthy (record_chart_type (deck_records content ! i)) \<longrightarrow>
             (\<exists>cb. rest = [Sp cb] \<and> is_chart_box (Sp cb) \<and> in_lower_right cb \<and>
                shape_text cb =
                  u ''['' @ stored_text (py_format fmt (record_chart_type (deck_records content ! i)))
                    @ u '' chart placeholder]'')) \<and>
          (\<forall>c. record_chart_type (deck_records content ! i) = JStr c \<longrightarrow>
             (list_ex is_chart_box (sl_shapes (sls ! i)) \<longleftrightarrow> c \<noteq> []) \<and>
             (c \<noteq> [] \<longrightarrow>
                (\<exists>cb. rest = [Sp cb] \<and> is_chart_box (Sp cb) \<and> in_lower_right cb \<and>
                   shape_text cb = u ''['' @ stored_text c @ u '' chart placeholder]'' \<and>
                   (no_control c \<longrightarrow>
                      shape_text cb = u ''['' @ c @ u '' chart placeholder]'')))) \<and>
          (\<forall>d. deck_records content ! i = JObj d \<and> map_of d (u ''chart_type'') = None \<longrightarrow>
             \<not> list_ex is_chart_box (sl_shapes (sls ! i)))"
  have content: "(\<exists>tsh tb rest. ?P i tsh tb rest) \<and> list_all has_text_frame (sl_shapes (sls ! i))"
    if i: "i < length (deck_records content)" for i
  proof -
    let ?r = "deck_records content ! i"
    let ?ct = "record_chart_type ?r"
    have c: "content_slide fmt ?r = Inr (sls ! i)"
      using each i by simp
    obtain tsh tb rest where shapes: "sl_shapes (sls ! i) = Sp tsh # Sp tb # rest"
      and k1: "sp_kind tsh = AutoShape ROUNDED_RECTANGLE"
      and k2: "sp_kind tb = TextBox"
      and chart: "if truthy ?ct
         then \<exists>cb. rest = [Sp cb] \<and>
              sp_kind cb = AutoShape RECTANGLE \<and>
              sp_geom cb = Some \<lparr>g_left = Inches 5.5, g_top = Inches 5,
                                   g_width = Inches 3.5, g_height = Inches 1\<rparr> \<and>
              sp_fill cb = Some (RGBColor 230 230 230) \<and>
              shape_text cb = stored_text (chart_label fmt ?ct)
         else rest = []"
      using content_slide_Inr [OF c] by auto
    have absent: "\<forall>d. ?r = JObj d \<and> map_of d (u ''chart_type'') = None \<longrightarrow> \<not> truthy ?ct"
      by (simp add: record_chart_type_def dict_get_def)
    show ?thesis
    proof (cases "truthy ?ct")
      case True
      then obtain cb where rest: "rest = [Sp cb]" and k3: "sp_kind cb = AutoShape RECTANGLE"
        and geom: "sp_geom cb = Some \<lparr>g_left = Inches 5.5, g_top = Inches 5,
                                   g_width = Inches 3.5, g_height = Inches 1\<rparr>"
        and fill: "sp_fill cb = Some (RGBColor 230 230 230)"
        and label: "shape_text cb = stored_text (chart_label fmt ?ct)"
        using chart by auto
      have box: "is_chart_box (Sp cb)"
        using k3 fill by simp
      have lr: "in_lower_right cb"
        using geom by (rule chart_box_lower_right)
      have label': "shape_text cb = u ''['' @ stored_text (py_format fmt ?ct) @ u '' chart placeholder]''"
        using label by (simp add: stored_chart_label)
      have ex: "list_ex is_chart_box (sl_shapes (sls ! i))"
        using shapes rest box by simp
      have cbx: "\<exists>cb. rest = [Sp cb] \<and> is_chart_box (Sp cb) \<and> in_lower_right cb \<and>
          shape_text cb = u ''['' @ stored_text (py_format fmt ?ct) @ u '' chart placeholder]''"
        using rest box lr label' by blast
      have strs: "\<forall>c. ?ct = JStr c \<longrightarrow>
          (list_ex is_chart_box (sl_shapes (sls ! i)) \<longleftrightarrow> c \<noteq> []) \<and>
          (c \<noteq> [] \<longrightarrow>
             (\<exists>cb. rest = [Sp cb] \<and> is_chart_box (Sp cb) \<and> in_lower_right cb \<and>
                shape_text cb = u ''['' @ stored_text c @ u '' chart placeholder]'' \<and>
                (no_control c \<longrightarrow> shape_text cb = u ''['' @ c @ u '' chart placeholder]'')))"
      proof (intro allI impI)
        fix c
        assume c: "?ct = JStr c"
        then have ne: "c \<noteq> []" using True by simp
        have l1: "shape_text cb = u ''['' @ stored_text c @ u '' chart placeholder]''"
          using label' c by simp
        have l2: "no_control c \<longrightarrow> shape_text cb = u ''['' @ c @ u '' chart placeholder]''"
          using l1 stored_text_no_control [of c] by simp
        have "\<exists>cb. rest = [Sp cb] \<and> is_chart_box (Sp cb) \<and> in_lower_right cb \<and>
            shape_text cb = u ''['' @ stored_text c @ u '' chart placeholder]'' \<and>
            (no_control c \<longrightarrow> shape_text cb = u ''['' @ c @ u '' chart placeholder]'')"
          using rest box lr l1 l2 by blast
        then show "(list_ex is_chart_box (sl_shapes (sls ! i)) \<longleftrightarrow> c \<noteq> []) \<and>
          (c \<noteq> [] \<longrightarrow>
             (\<exists>cb. rest = [Sp cb] \<and> is_chart_box (Sp cb) \<and> in_lower_right cb \<and>
                shape_text cb = u ''['' @ stored_text c @ u '' chart placeholder]'' \<and>
                (no_control c \<longrightarrow> shape_text cb = u ''['' @ c @ u '' chart placeholder]'')))"
          using ex ne by blast
      qed
      have "?P i tsh tb rest"
        using True shapes ex cbx strs absent by blast
      moreover have "list_all has_text_frame (sl_shapes (sls ! i))"
        using shapes rest by simp
      ultimately show ?thesis by blast
    next
      case False
      then have rest: "rest = []"
        using chart by simp
      have "\<not> list_ex is_chart_box (sl_shapes (sls ! i))"
        using shapes rest k1 k2 by simp
      then have "?P i tsh tb rest"
        using False shapes by auto
      moreover have "list_all has_text_frame (sl_shapes (sls ! i))"
        using shapes rest by simp
      ultimately show ?thesis by blast
    qed
  qed
  have title_shapes: "list_all has_text_frame (sl_shapes ts)"
    using title_slide_Inr [OF ts] by auto
  have no_graphic: "\<forall>sh \<in> set (sl_shapes x). has_text_frame sh" if x: "x \<in> set (slides prs)" for x
  proof (cases "x = ts")
    case True
    then show ?thesis using title_shapes by (simp add: list_all_iff)
  next
    case False
    then have "x \<in> set sls" using x sl by simp
    then obtain i where "i < length sls" and "x = sls ! i"
      by (auto simp: in_set_conv_nth)
    then show ?thesis
      using content [of i] len by (simp add: list_all_iff)
  qed
  have "\<exists>tsh tb rest. ?P i tsh tb rest" if "i < length (deck_records content)" for i
    using content [OF that] by blast
  then have "\<forall>i < length (deck_records content). \<exists>tsh tb rest. ?P i tsh tb rest"
    by blast
  then show "\<exists>prs. fs' p = Some prs \<and>
       length (slides prs) = 1 + length (deck_records content) \<and>
       (\<forall>sl \<in> set (slides prs). \<forall>sh \<in> set (sl_shapes sl). has_text_frame sh) \<and>
       (\<forall>i < length (deck_records content).
          \<exists>tsh tb rest.
            sl_shapes (slides prs ! (i + 1)) = Sp tsh # Sp tb # rest \<and>
            (list_ex is_chart_box (sl_shapes (slides prs ! (i + 1))) \<longleftrightarrow>
               truthy (record_chart_type (deck_records content ! i))) \<and>
            (truthy (record_chart_type (deck_records content ! i)) \<longrightarrow>
               (\<exists>cb. rest = [Sp cb] \<and> is_chart_box (Sp cb) \<and> in_lower_right cb \<and>
                  shape_text cb =
                    u ''['' @ stored_text (py_format fmt (record_chart_type (deck_records content ! i)))
                      @ u '' chart placeholder]'')) \<and>
            (\<forall>c. record_chart_type (deck_records content ! i) = JStr c \<longrightarrow>
               (list_ex is_chart_box (sl_shapes (slides prs ! (i + 1))) \<longleftrightarrow> c \<noteq> []) \<and>
               (c \<noteq> [] \<longrightarrow>
                  (\<exists>cb. rest = [Sp cb] \<and> is_chart_box (Sp cb) \<and> in_lower_right cb \<and>
                     shape_text cb = u ''['' @ stored_text c @ u '' chart placeholder]'' \<and>
                     (no_control c \<longrightarrow>
                        shape_text cb = u ''['' @ c @ u '' chart placeholder]'')))) \<and>
            (\<forall>d. deck_records content ! i = JObj d \<and> map_of d (u ''chart_type'') = None \<longrightarrow>
               \<not> list_ex is_chart_box (sl_shapes (slides prs ! (i + 1)))))"
    using f sl len no_graphic by simp
qed

theorem chart_placeholder_iff_chart_type_witness:
  "deck_shaped sample_enhanced \<and> deck_compatible sample_enhanced \<and>
   (\<exists>p fs' prs tsh tb cb.
      json_to_ppt (\<lambda>v. []) (\<lambda>p. None) sample_enhanced sample_path Map.empty = Inr (p, fs') \<and>
      fs' p = Some prs \<and>
      sl_shapes (slides prs ! 1) = [Sp tsh, Sp tb, Sp cb] \<and>
      is_chart_box (Sp cb) \<and>
      shape_text cb = u ''[pie chart placeholder]'' \<and>
      \<not> list_ex is_chart_box (sl_shapes (slides prs ! 2)))"
proof -
  have shaped: "deck_shaped sample_enhanced"
    by (simp add: sample_enhanced_def u_def)
  have compat: "deck_compatible sample_enhanced"
    by (simp add: sample_enhanced_def dict_get_def xml_compatible_def u_def)
  have len: "length (deck_records sample_enhanced) = 2"
    by (simp add: sample_enhanced_def deck_records_def dict_get_def u_def)
  have c0: "record_chart_type (deck_records sample_enhanced ! 0) = JStr (u ''pie'')"
    and c1: "record_chart_type (deck_records sample_enhanced ! 1) = JStr []"
    by (simp_all add: sample_enhanced_def deck_records_def record_chart_type_def dict_get_def u_def)
  have plain: "no_control (u ''pie'')"
    by (simp add: no_control_def u_def)
  note T = chart_placeholder_iff_chart_type
    [of sample_enhanced "\<lambda>p. None" sample_path "\<lambda>v. []" Map.empty]
  obtain r where "json_to_ppt (\<lambda>v. []) (\<lambda>p. None) sample_enhanced sample_path Map.empty = Inr r"
    using T shaped compat by blast
  then obtain p fs' where
    r: "json_to_ppt (\<lambda>v. []) (\<lambda>p. None) sample_enhanced sample_path Map.empty = Inr (p, fs')"
    by (cases r) auto
  obtain prs where f: "fs' p = Some prs"
    and each: "\<forall>i < length (deck_records sample_enhanced).
          \<exists>tsh tb rest.
            sl_shapes (slides prs ! (i + 1)) = Sp tsh # Sp tb # rest \<and>
            (list_ex is_chart_box (sl_shapes (slides prs ! (i + 1))) \<longleftrightarrow>
               truthy (record_chart_type (deck_records sample_enhanced ! i))) \<and>
            (truthy (record_chart_type (deck_records sample_enhanced ! i)) \<longrightarrow>
               (\<exists>cb. rest = [Sp cb] \<and> is_chart_box (Sp cb) \<and> in_lower_right cb \<and>
                  shape_text cb =
                    u ''['' @ stored_text (py_format (\<lambda>v. []) (record_chart_type (deck_records sample_enhanced ! i)))
                      @ u '' chart placeholder]'')) \<and>
            (\<forall>c. record_chart_type (deck_records sample_enhanced ! i) = JStr c \<longrightarrow>
               (list_ex is_chart_box (sl_shapes (slides prs ! (i + 1))) \<longleftrightarrow> c \<noteq> []) \<and>
               (c \<noteq> [] \<longrightarrow>
                  (\<exists>cb. rest = [Sp cb] \<and> is_chart_box (Sp cb) \<and> in_lower_right cb \<and>
                     shape_text cb = u ''['' @ stored_text c @ u '' chart placeholder]'' \<and>
                     (no_control c \<longrightarrow>
                        shape_text cb = u ''['' @ c @ u '' chart placeholder]'')))) \<and>
            (\<forall>d. deck_records sample_enhanced ! i = JObj d \<and> map_of d (u ''chart_type'') = None \<longrightarrow>
               \<not> list_ex is_chart_box (sl_shapes (slides prs ! (i + 1))))"
    using T r by blast
  have ne: "u ''pie'' \<noteq> []"
    by (simp add: u_def)
  obtain tsh tb cb where "sl_shapes (slides prs ! 1) = [Sp tsh, Sp tb, Sp cb]"
    and "is_chart_box (Sp cb)"
    and "shape_text cb = u ''['' @ u ''pie'' @ u '' chart placeholder]''"
    using each [rule_format, of 0] len c0 plain ne by auto
  moreover have "\<not> list_ex is_chart_box (sl_shapes (slides prs ! 2))"
    using each [rule_format, of 1] len c1 by (auto simp: numeral_2_eq_2)
  moreover have "u ''['' @ u ''pie'' @ u '' chart placeholder]'' = u ''[pie chart placeholder]''"
    by (simp add: u_def)
  ultimately show ?thesis
    using shaped compat r f by auto
qed

text \<open>
  Claim C8, as stated, fails. For the object whose \<^verbatim>\<open>title\<close> is the number 42 the Builder
  raises and sets no title text; for the object whose \<^verbatim>\<open>title\<close> is \<^verbatim>\<open>T\<close> followed by
  the bell character the Builder returns, and the title placeholder of the title slide
  reads \<^verbatim>\<open>T_x0007_\<close>, which is not the \<^verbatim>\<open>title\<close> value.
\<close>

theorem title_slide_counterexample:
  "deck_title number_title_deck = JInt 42 \<and>
   json_to_ppt no_format writable number_title_deck sample_path no_files = Inl TextNotStr \<and>
   deck_title bell_title_deck = JStr [0x54, 0x07] \<and>
   saved_texts (json_to_ppt no_format writable bell_title_deck sample_path no_files) =
     Inr [[u ''T_x0007_'', u ''Enhanced by GPT-4'']] \<and>
   u ''T_x0007_'' \<noteq> [0x54, 0x07]"
proof -
  have "deck_title number_title_deck = JInt 42"
    and "deck_title bell_title_deck = JStr [0x54, 0x07]"
    by (simp_all add: number_title_deck_def bell_title_deck_def deck_title_def dict_get_def u_def)
  moreover have "json_to_ppt no_format writable number_title_deck sample_path no_files =
      Inl TextNotStr"
    by (simp add: number_title_deck_def no_files_def builder_defs)
  moreover have "saved_texts (json_to_ppt no_format writable bell_title_deck sample_path no_files) =
     Inr [[u ''T_x0007_'', u ''Enhanced by GPT-4'']]"
    by (simp add: bell_title_deck_def no_files_def builder_defs)
  moreover have "u ''T_x0007_'' \<noteq> [0x54, 0x07]"
    by (simp add: u_def)
  ultimately show ?thesis by blast
qed

text \<open>
  Claim C8, amended. A deck of the shape of the data model, in which every field may be
  missing, whose strings XML can hold is built without error when the path can be
  written; so are the deck without any key and the deck whose one slide record has no
  key. Whenever the Builder returns, the first slide is the title slide, the \<^verbatim>\<open>title\<close>
  of the deck is a str and the text of the title placeholder is that str with every
  control character the library escapes written \<^verbatim>\<open>_xHHHH_\<close>: the \<^verbatim>\<open>title\<close> itself when
  it has no such character, \<^verbatim>\<open>Untitled Presentation\<close> when the deck has no such key;
  the text of the subtitle placeholder is \<^verbatim>\<open>Enhanced by GPT-4\<close>.
\<close>

theorem title_slide_defaults:
  "(deck_shaped content \<and> deck_compatible content \<and> we path = None \<longrightarrow>
      (\<exists>r. json_to_ppt fmt we content path fs = Inr r)) \<and>
   (we path = None \<longrightarrow>
      (\<exists>r. json_to_ppt fmt we (JObj []) path fs = Inr r) \<and>
      (\<exists>r. json_to_ppt fmt we (JObj [(u ''slides'', JArr [JObj []])]) path fs = Inr r)) \<and>
   (\<forall>p fs'. json_to_ppt fmt we content path fs = Inr (p, fs') \<longrightarrow>
      (\<exists>prs ttl sub t. fs' p = Some prs \<and> slides prs \<noteq> [] \<and>
         sl_layout (hd (slides prs)) = 0 \<and>
         sl_shapes (hd (slides prs)) = [Sp ttl, Sp sub] \<and>
         sp_kind ttl = Placeholder 0 \<and> sp_kind sub = Placeholder 1 \<and>
         deck_title content = JStr t \<and>
         shape_text ttl = stored_text t \<and>
         (no_control t \<longrightarrow> shape_text ttl = t) \<and>
         shape_text sub = u ''Enhanced by GPT-4'' \<and>
         (\<forall>d. content = JObj d \<and> map_of d (u ''title'') = None \<longrightarrow>
            shape_text ttl = u ''Untitled Presentation'')))"
proof (intro conjI allI impI)
  assume "deck_shaped content \<and> deck_compatible content \<and> we path = None"
  then show "\<exists>r. json_to_ppt fmt we content path fs = Inr r"
    using json_to_ppt_ok [of content we path fmt fs] by blast
next
  assume w: "we path = None"
  have "deck_shaped (JObj [])" and "deck_compatible (JObj [])"
    by (simp_all add: dict_get_def)
  then show "\<exists>r. json_to_ppt fmt we (JObj []) path fs = Inr r"
    using w json_to_ppt_ok [of "JObj []" we path fmt fs] by blast
next
  assume w: "we path = None"
  have "deck_shaped (JObj [(u ''slides'', JArr [JObj []])])"
    and "deck_compatible (JObj [(u ''slides'', JArr [JObj []])])"
    by (simp_all add: dict_get_def u_def)
  then show "\<exists>r. json_to_ppt fmt we (JObj [(u ''slides'', JArr [JObj []])]) path fs = Inr r"
    using w json_to_ppt_ok [of "JObj [(u ''slides'', JArr [JObj []])]" we path fmt fs]
    by blast
next
  fix p fs'
  assume ok: "json_to_ppt fmt we content path fs = Inr (p, fs')"
  obtain prs ts sls where f: "fs' p = Some prs" and ts: "title_slide content = Inr ts"
    and sl: "slides prs = ts # sls"
    using json_to_ppt_slides [OF ok] by blast
  obtain ttl sub t where shapes: "sl_layout ts = 0" "sl_shapes ts = [Sp ttl, Sp sub]"
    and kinds: "sp_kind ttl = Placeholder 0" "sp_kind sub = Placeholder 1"
    and title: "deck_title content = JStr t"
    and stored: "shape_text ttl = stored_text t"
    and subtitle: "shape_text sub = u ''Enhanced by GPT-4''"
    using title_slide_Inr [OF ts] by auto
  have plain: "no_control t \<longrightarrow> shape_text ttl = t"
    using stored stored_text_no_control [of t] by simp
  have "shape_text ttl = u ''Untitled Presentation''"
    if "content = JObj d \<and> map_of d (u ''title'') = None" for d
  proof -
    have "t = u ''Untitled Presentation''"
      using that title by (simp add: deck_title_def dict_get_def)
    moreover have "no_control (u ''Untitled Presentation'')"
      by (simp add: no_control_def u_def)
    ultimately show ?thesis
      using plain by simp
  qed
  then show "\<exists>prs ttl sub t. fs' p = Some prs \<and> slides prs \<noteq> [] \<and>
         sl_layout (hd (slides prs)) = 0 \<and>
         sl_shapes (hd (slides prs)) = [Sp ttl, Sp sub] \<and>
         sp_kind ttl = Placeholder 0 \<and> sp_kind sub = Placeholder 1 \<and>
         deck_title content = JStr t \<and>
         shape_text ttl = stored_text t \<and>
         (no_control t \<longrightarrow> shape_text ttl = t) \<and>
         shape_text sub = u ''Enhanced by GPT-4'' \<and>
         (\<forall>d. content = JObj d \<and> map_of d (u ''title'') = None \<longrightarrow>
            shape_text ttl = u ''Untitled Presentation'')"
    using f sl shapes kinds title stored plain subtitle by auto
qed

theorem title_slide_defaults_witness:
  "deck_shaped sample_sparse \<and> deck_compatible sample_sparse \<and>
   (\<exists>p fs' prs ttl sub.
      json_to_ppt (\<lambda>v. []) (\<lambda>p. None) sample_sparse sample_path Map.empty = Inr (p, fs') \<and>
      fs' p = Some prs \<and>
      sl_shapes (hd (slides prs)) = [Sp ttl, Sp sub] \<and>
      shape_text ttl = u ''Untitled Presentation'' \<and>
      shape_text sub = u ''Enhanced by GPT-4'') \<and>
   deck_shaped sample_enhanced \<and> deck_compatible sample_enhanced \<and>
   (\<exists>p fs' prs ttl sub.
      json_to_ppt (\<lambda>v. []) (\<lambda>p. None) sample_enhanced sample_path Map.empty = Inr (p, fs') \<and>
      fs' p = Some prs \<and>
      sl_shapes (hd (slides prs)) = [Sp ttl, Sp sub] \<and>
      shape_text ttl = u ''Q3 Review'')"
proof -
  have shaped: "deck_shaped sample_sparse"
    by (simp add: sample_sparse_def u_def)
  have compat: "deck_compatible sample_sparse"
    by (simp add: sample_sparse_def dict_get_def u_def)
  have absent: "sample_sparse = JObj [(u ''slides'', JArr [JObj []])] \<and>
      map_of [(u ''slides'', JArr [JObj []])] (u ''title'') = None"
    by (simp add: sample_sparse_def u_def)
  note T = title_slide_defaults [of sample_sparse "\<lambda>p. None" sample_path "\<lambda>v. []" Map.empty]
  obtain r where "json_to_ppt (\<lambda>v. []) (\<lambda>p. None) sample_sparse sample_path Map.empty = Inr r"
    using T shaped compat by blast
  then obtain p fs' where
    r: "json_to_ppt (\<lambda>v. []) (\<lambda>p. None) sample_sparse sample_path Map.empty = Inr (p, fs')"
    by (cases r) auto
  have first: "\<exists>p fs' prs ttl sub.
      json_to_ppt (\<lambda>v. []) (\<lambda>p. None) sample_sparse sample_path Map.empty = Inr (p, fs') \<and>
      fs' p = Some prs \<and>
      sl_shapes (hd (slides prs)) = [Sp ttl, Sp sub] \<and>
      shape_text ttl = u ''Untitled Presentation'' \<and>
      shape_text sub = u ''Enhanced by GPT-4''"
    using T r absent by blast
  have shaped2: "deck_shaped sample_enhanced"
    by (simp add: sample_enhanced_def u_def)
  have compat2: "deck_compatible sample_enhanced"
    by (simp add: sample_enhanced_def dict_get_def xml_compatible_def u_def)
  have t2: "deck_title sample_enhanced = JStr (u ''Q3 Review'')"
    by (simp add: sample_enhanced_def deck_title_def dict_get_def u_def)
  have plain: "no_control (u ''Q3 Review'')"
    by (simp add: no_control_def u_def)
  note T2 = title_slide_defaults [of sample_enhanced "\<lambda>p. None" sample_path "\<lambda>v. []" Map.empty]
  obtain r2 where "json_to_ppt (\<lambda>v. []) (\<lambda>p. None) sample_enhanced sample_path Map.empty = Inr r2"
    using T2 shaped2 compat2 by blast
  then obtain p2 fs2 where
    r2: "json_to_ppt (\<lambda>v. []) (\<lambda>p. None) sample_enhanced sample_path Map.empty = Inr (p2, fs2)"
    by (cases r2) auto
  obtain prs ttl sub t where "fs2 p2 = Some prs" "sl_shapes (hd (slides prs)) = [Sp ttl, Sp sub]"
    "deck_title sample_enhanced = JStr t" "no_control t \<longrightarrow> shape_text ttl = t"
    using T2 r2 by blast
  then have second: "\<exists>p fs' prs ttl sub.
      json_to_ppt (\<lambda>v. []) (\<lambda>p. None) sample_enhanced sample_path Map.empty = Inr (p, fs') \<and>
      fs' p = Some prs \<and>
      sl_shapes (hd (slides prs)) = [Sp ttl, Sp sub] \<and>
      shape_text ttl = u ''Q3 Review''"
    using r2 t2 plain by auto
  show ?thesis
    using shaped compat shaped2 compat2 first second by blast
qed

text \<open>
  Claim C10. A deck of the shape of the data model whose strings XML can hold, written
  to a path that can be written, is built without error. Whenever the Builder returns,
  the text box of each content slide (its second shape) starts with the empty paragraph
  a new text frame has, followed by one paragraph per bullet point of the record, in
  order: one paragraph more than the record has bullet points, the first of them blank.
  The paragraph of a bullet point reads as the library stores its text, a line feed as
  a vertical tab and every control character the library escapes as \<^verbatim>\<open>_xHHHH_\<close>: the
  bullet point itself when it has neither.
\<close>

theorem bullet_box_paragraphs:
  "(deck_shaped content \<and> deck_compatible content \<and> we path = None \<longrightarrow>
      (\<exists>r. json_to_ppt fmt we content path fs = Inr r)) \<and>
   (\<forall>p fs'. json_to_ppt fmt we content path fs = Inr (p, fs') \<longrightarrow>
      (\<exists>prs. fs' p = Some prs \<and>
         length (slides prs) = 1 + length (deck_records content) \<and>
         (\<forall>i < length (deck_records content).
            \<exists>tsh tb rest ps.
              sl_shapes (slides prs ! (i + 1)) = Sp tsh # Sp tb # rest \<and>
              sp_kind tb = TextBox \<and>
              sp_paragraphs tb = new_paragraph # ps \<and>
              length ps = length (record_bullets (deck_records content ! i)) \<and>
              (\<forall>j < length (record_bullets (deck_records content ! i)).
                 \<exists>t. record_bullets (deck_records content ! i) ! j = JStr t \<and>
                     p_text (ps ! j) = stored_line t \<and>
                     (no_control t \<and> 0x0A \<notin> set t \<longrightarrow> p_text (ps ! j) = t)) \<and>
              length (sp_paragraphs tb) = length (record_bullets (deck_records content ! i)) + 1 \<and>
              p_text (hd (sp_paragraphs tb)) = [])))"
proof (intro conjI allI impI)
  assume "deck_shaped content \<and> deck_compatible content \<and> we path = None"
  then show "\<exists>r. json_to_ppt fmt we content path fs = Inr r"
    using json_to_ppt_ok [of content we path fmt fs] by blast
next
  fix p fs'
  assume ok: "json_to_ppt fmt we content path fs = Inr (p, fs')"
  obtain prs ts sls where f: "fs' p = Some prs"
    and sl: "slides prs = ts # sls" and len: "length sls = length (deck_records content)"
    and each: "\<forall>i < length (deck_records content).
         content_slide fmt (deck_records content ! i) = Inr (sls ! i)"
    using json_to_ppt_slides [OF ok] by blast
  have "\<exists>tsh tb rest ps.
          sl_shapes (sls ! i) = Sp tsh # Sp tb # rest \<and>
          sp_kind tb = TextBox \<and>
          sp_paragraphs tb = new_paragraph # ps \<and>
          length ps = length (record_bullets (deck_records content ! i)) \<and>
          (\<forall>j < length (record_bullets (deck_records content ! i)).
             \<exists>t. record_bullets (deck_records content ! i) ! j = JStr t \<and>
                 p_text (ps ! j) = stored_line t \<and>
                 (no_control t \<and> 0x0A \<notin> set t \<longrightarrow> p_text (ps ! j) = t)) \<and>
          length (sp_paragraphs tb) = length (record_bullets (deck_records content ! i)) + 1 \<and>
          p_text (hd (sp_paragraphs tb)) = []"
    if i: "i < length (deck_records content)" for i
  proof -
    let ?bs = "record_bullets (deck_records content ! i)"
    have c: "content_slide fmt (deck_records content ! i) = Inr (sls ! i)"
      using each i by simp
    obtain tsh tb ps rest where shapes: "sl_shapes (sls ! i) = Sp tsh # Sp tb # rest"
      and kind: "sp_kind tb = TextBox"
      and paras: "sp_paragraphs tb = new_paragraph # ps"
      and texts: "list_all2 (\<lambda>p b. \<exists>t. b = JStr t \<and> p_text p = stored_line t) ps ?bs"
      using content_slide_Inr [OF c] by auto
    have n: "length ps = length ?bs"
      using texts by (rule list_all2_lengthD)
    have lines: "\<exists>t. ?bs ! j = JStr t \<and> p_text (ps ! j) = stored_line t \<and>
        (no_control t \<and> 0x0A \<notin> set t \<longrightarrow> p_text (ps ! j) = t)"
      if j: "j < length ?bs" for j
    proof -
      obtain t where t: "?bs ! j = JStr t" "p_text (ps ! j) = stored_line t"
        using list_all2_nthD2 [OF texts j] by blast
      have "no_control t \<and> 0x0A \<notin> set t \<longrightarrow> p_text (ps ! j) = t"
        using t stored_line_no_control [of t] by simp
      then show ?thesis
        using t by blast
    qed
    have "length (sp_paragraphs tb) = length ?bs + 1"
      using paras n by simp
    moreover have "p_text (hd (sp_paragraphs tb)) = []"
      using paras by (simp add: new_paragraph_def)
    ultimately show ?thesis
      using shapes kind paras n lines by blast
  qed
  then show "\<exists>prs. fs' p = Some prs \<and>
         length (slides prs) = 1 + length (deck_records content) \<and>
         (\<forall>i < length (deck_records content).
            \<exists>tsh tb rest ps.
              sl_shapes (slides prs ! (i + 1)) = Sp tsh # Sp tb # rest \<and>
              sp_kind tb = TextBox \<and>
              sp_paragraphs tb = new_paragraph # ps \<and>
              length ps = length (record_bullets (deck_records content ! i)) \<and>
              (\<forall>j < length (record_bullets (deck_records content ! i)).
                 \<exists>t. record_bullets (deck_records content ! i) ! j = JStr t \<and>
                     p_text (ps ! j) = stored_line t \<and>
                     (no_control t \<and> 0x0A \<notin> set t \<longrightarrow> p_text (ps ! j) = t)) \<and>
              length (sp_paragraphs tb) = length (record_bullets (deck_records content ! i)) + 1 \<and>
              p_text (hd (sp_paragraphs tb)) = [])"
    using f sl len by simp
qed

theorem bullet_box_paragraphs_witness:
  "deck_shaped sample_enhanced \<and> deck_compatible sample_enhanced \<and>
   (\<exists>p fs' prs tsh tb rest.
      json_to_ppt (\<lambda>v. []) (\<lambda>p. None) sample_enhanced sample_path Map.empty = Inr (p, fs') \<and>
      fs' p = Some prs \<and>
      sl_shapes (slides prs ! 1) = Sp tsh # Sp tb # rest \<and>
      map p_text (sp_paragraphs tb) = [[], u ''up'', u ''steady''])"
proof -
  have shaped: "deck_shaped sample_enhanced"
    by (simp add: sample_enhanced_def u_def)
  have compat: "deck_compatible sample_enhanced"
    by (simp add: sample_enhanced_def dict_get_def xml_compatible_def u_def)
  have len: "length (deck_records sample_enhanced) = 2"
    by (simp add: sample_enhanced_def deck_records_def dict_get_def u_def)
  have b0: "record_bullets (deck_records sample_enhanced ! 0) = [JStr (u ''up''), JStr (u ''steady'')]"
    by (simp add: sample_enhanced_def deck_records_def record_bullets_def dict_get_def u_def)
  have plain: "no_control (u ''up'') \<and> 0x0A \<notin> set (u ''up'')"
    "no_control (u ''steady'') \<and> 0x0A \<notin> set (u ''steady'')"
    by (simp_all add: no_control_def u_def)
  note T = bullet_box_paragraphs
    [of sample_enhanced "\<lambda>p. None" sample_path "\<lambda>v. []" Map.empty]
  obtain r where "json_to_ppt (\<lambda>v. []) (\<lambda>p. None) sample_enhanced sample_path Map.empty = Inr r"
    using T shaped compat by blast
  then obtain p fs' where
    r: "json_to_ppt (\<lambda>v. []) (\<lambda>p. None) sample_enhanced sample_path Map.empty = Inr (p, fs')"
    by (cases r) auto
  obtain prs where f: "fs' p = Some prs"
    and each: "\<forall>i < length (deck_records sample_enhanced).
            \<exists>tsh tb rest ps.
              sl_shapes (slides prs ! (i + 1)) = Sp tsh # Sp tb # rest \<and>
              sp_kind tb = TextBox \<and>
              sp_paragraphs tb = new_paragraph # ps \<and>
              length ps = length (record_bullets (deck_records sample_enhanced ! i)) \<and>
              (\<forall>j < length (record_bullets (deck_records sample_enhanced ! i)).
                 \<exists>t. record_bullets (deck_records sample_enhanced ! i) ! j = JStr t \<and>
                     p_text (ps ! j) = stored_line t \<and>
                     (no_control t \<and> 0x0A \<notin> set t \<longrightarrow> p_text (ps ! j) = t)) \<and>
              length (sp_paragraphs tb) = length (record_bullets (deck_records sample_enhanced ! i)) + 1 \<and>
              p_text (hd (sp_paragraphs tb)) = []"
    using T r by blast
  obtain tsh tb rest ps where shapes: "sl_shapes (slides prs ! 1) = Sp tsh # Sp tb # rest"
    and paras: "sp_paragraphs tb = new_paragraph # ps"
    and n: "length ps = 2"
    and lines: "\<forall>j < 2. \<exists>t. [JStr (u ''up''), JStr (u ''steady'')] ! j = JStr t \<and>
                     p_text (ps ! j) = stored_line t \<and>
                     (no_control t \<and> 0x0A \<notin> set t \<longrightarrow> p_text (ps ! j) = t)"
    using each [rule_format, of 0] len b0 by auto
  have "p_text (ps ! 0) = u ''up''"
    using lines [rule_format, of 0] plain by auto
  moreover have "p_text (ps ! 1) = u ''steady''"
    using lines [rule_format, of 1] plain by auto
  moreover obtain a b where "ps = [a, b]"
    using n by (cases ps; cases "tl ps") auto
  ultimately have "map p_text ps = [u ''up'', u ''steady'']"
    by simp
  then have "map p_text (sp_paragraphs tb) = [[], u ''up'', u ''steady'']"
    using paras by (simp add: new_paragraph_def)
  then show ?thesis
    using shaped compat r f shapes by auto
qed

text \<open>
  A bullet point with a line feed stays one paragraph, read back with a vertical tab in
  its place: the text of the box is the blank first line, then that paragraph.
\<close>

lemma line_feed_bullet_one_paragraph:
  "saved_texts (json_to_ppt no_format writable lf_bullet_deck sample_path no_files) =
     Inr [[u ''Untitled Presentation'', u ''Enhanced by GPT-4''],
          [[], [0x0A, 0x61, 0x0B, 0x62]]]"
  by (simp add: lf_bullet_deck_def no_files_def builder_defs)

text \<open>
  Claim C6. The example object of the instruction text of the Enhancer, given to the
  Builder with a path that can be written, is built and saved without error; it has one
  slide record and the presentation saved has two slides.
\<close>

theorem example_json_round_trip:
  "we path = None \<Longrightarrow>
   \<exists>prs. json_to_ppt fmt we example_json path fs = Inr (path, fs(path \<mapsto> prs)) \<and>
         length (deck_records example_json) = 1 \<and>
         length (slides prs) = 1 + length (deck_records example_json) \<and>
         length (slides prs) = 2"
proof -
  assume w: "we path = None"
  have shaped: "deck_shaped example_json"
    by (simp add: example_json_def u_def)
  have compat: "deck_compatible example_json"
    by (simp add: example_json_def dict_get_def xml_compatible_def u_def)
  have one: "length (deck_records example_json) = 1"
    by (simp add: example_json_def deck_records_def dict_get_def u_def)
  obtain prs where r: "json_to_ppt fmt we example_json path fs = Inr (path, fs(path \<mapsto> prs))"
    using json_to_ppt_ok [of example_json we path fmt fs] shaped compat w by blast
  obtain prs' ts sls where "(fs(path \<mapsto> prs)) path = Some prs'" and "slides prs' = ts # sls"
    and "length sls = length (deck_records example_json)"
    using json_to_ppt_slides [OF r] by blast
  then have "length (slides prs) = 1 + length (deck_records example_json)"
    by simp
  then show ?thesis
    using r one by (intro exI [of _ prs]) simp
qed

theorem example_json_round_trip_witness:
  "(\<lambda>p. None :: error option) sample_path = None \<and>
   (\<exists>prs. json_to_ppt (\<lambda>v. []) (\<lambda>p. None) example_json sample_path Map.empty =
            Inr (sample_path, [sample_path \<mapsto> prs]) \<and>
          length (slides prs) = 2)"
  using example_json_round_trip [of "\<lambda>p. None" sample_path "\<lambda>v. []" Map.empty]
  by auto

section \<open>Properties of the script\<close>

lemma messages_differ: "access_denied_message \<noteq> missing_upload_message"
  by (simp add: access_denied_message_def missing_upload_message_def u_def)

lemma try_body_no_error_shown: "\<not> list_ex is_error_shown (fst (try_body ev req extracted fs))"
  by (simp add: try_body_def Let_def split: sum.splits option.splits prod.splits)

lemma enhance_and_build_no_St_error:
  "St_error m \<notin> set (fst (enhance_and_build ev req extracted fs))"
proof -
  have "St_error m \<notin> set (fst (try_body ev req extracted fs))"
    using try_body_no_error_shown [of ev req extracted fs] by (auto simp: list_ex_iff)
  then show ?thesis
    by (cases "try_body ev req extracted fs")
      (auto simp: enhance_and_build_def split: option.splits)
qed

lemma submit_handler_not_stopped: "fst (snd (submit_handler ev req fs)) \<noteq> Stopped"
  by (simp add: submit_handler_def Let_def split: option.splits sum.splits prod.splits)

lemma submit_handler_St_error:
  assumes "St_error m \<in> set (fst (submit_handler ev req fs))"
  shows "m = missing_upload_message"
proof (cases "uploaded req")
  case None
  then show ?thesis using assms by (simp add: submit_handler_def)
next
  case (Some f)
  show ?thesis
  proof (cases "extract_ppt_text f")
    case (Inl e)
    then show ?thesis using assms Some by (simp add: submit_handler_def)
  next
    case (Inr extracted)
    then have "St_error m \<in> set (fst (enhance_and_build ev req extracted fs))"
      using assms Some
      by (cases "enhance_and_build ev req extracted fs") (simp add: submit_handler_def)
    then show ?thesis
      using enhance_and_build_no_St_error [of m ev req extracted fs] by simp
  qed
qed

lemma submit_handler_runs_extract:
  "uploaded req = Some f \<Longrightarrow> Run_extract \<in> set (fst (submit_handler ev req fs))"
  by (cases "extract_ppt_text f")
    (simp_all add: submit_handler_def Let_def split: prod.splits)

text \<open>
  Claim C4. A run is stopped by the guard exactly when the request has no \<^verbatim>\<open>key\<close>
  parameter or one that differs from the configured key. Then the run shows the access
  denied message and nothing else: it ends there, and no pipeline stage, the Extractor
  among them, is called. When the key equals the configured key the run is not stopped,
  shows no access denied message and goes on to the form and its handler; with a
  submitted upload the Extractor is called.
\<close>

theorem access_guard_exact:
  "(fst (snd (run_script ev req fs)) = Stopped \<longleftrightarrow>
      query_key req = None \<or> (\<exists>k. query_key req = Some k \<and> k \<noteq> required_key ev)) \<and>
   (query_key req = None \<or> (\<exists>k. query_key req = Some k \<and> k \<noteq> required_key ev) \<longrightarrow>
      run_script ev req fs = ([St_error access_denied_message], Stopped, fs) \<and>
      \<not> list_ex is_stage_call (fst (run_script ev req fs))) \<and>
   (query_key req = Some (required_key ev) \<longrightarrow>
      run_script ev req fs =
        (if submitted req then submit_handler ev req fs else ([], Completed, fs)) \<and>
      St_error access_denied_message \<notin> set (fst (run_script ev req fs)) \<and>
      (submitted req \<and> uploaded req \<noteq> None \<longrightarrow>
         Run_extract \<in> set (fst (run_script ev req fs))))"
proof -
  have denied_iff: "access_denied ev req \<longleftrightarrow>
      query_key req = None \<or> (\<exists>k. query_key req = Some k \<and> k \<noteq> required_key ev)"
    by (cases "query_key req") (auto simp: access_denied_def)
  have denied: "run_script ev req fs = ([St_error access_denied_message], Stopped, fs)"
    if "access_denied ev req"
    using that by (simp add: run_script_def)
  have allowed: "run_script ev req fs =
      (if submitted req then submit_handler ev req fs else ([], Completed, fs))"
    if "\<not> access_denied ev req"
    using that by (simp add: run_script_def)
  have not_stopped: "fst (snd (run_script ev req fs)) \<noteq> Stopped" if "\<not> access_denied ev req"
    using allowed [OF that] submit_handler_not_stopped [of ev req fs] by simp
  have no_message: "St_error access_denied_message \<notin> set (fst (run_script ev req fs))"
    if "\<not> access_denied ev req"
    using allowed [OF that] submit_handler_St_error [of access_denied_message ev req fs]
      messages_differ by auto
  have runs: "Run_extract \<in> set (fst (run_script ev req fs))"
    if "\<not> access_denied ev req" "submitted req" "uploaded req \<noteq> None"
    using allowed [OF that(1)] that(2,3) submit_handler_runs_extract [of req _ ev fs] by auto
  have match: "\<not> access_denied ev req" if "query_key req = Some (required_key ev)"
    using that by (simp add: access_denied_def)
  have stopped_iff: "fst (snd (run_script ev req fs)) = Stopped \<longleftrightarrow> access_denied ev req"
    using denied not_stopped by (cases "access_denied ev req") auto
  show ?thesis
    using denied_iff stopped_iff denied allowed no_message runs match
    by (intro conjI impI) auto
qed


theorem access_guard_exact_witness:
  "run_script sample_env (sample_request None (Some (Inr sample_deck))) Map.empty =
     ([St_error access_denied_message], Stopped, Map.empty) \<and>
   run_script sample_env (sample_request (Some (u ''guess'')) (Some (Inr sample_deck))) Map.empty =
     ([St_error access_denied_message], Stopped, Map.empty) \<and>
   fst (snd (run_script sample_env
     (sample_request (Some (u ''s3cret'')) (Some (Inr sample_deck))) Map.empty)) \<noteq> Stopped \<and>
   Run_extract \<in> set (fst (run_script sample_env
     (sample_request (Some (u ''s3cret'')) (Some (Inr sample_deck))) Map.empty))"
proof -
  have missing: "query_key (sample_request None (Some (Inr sample_deck))) = None"
    by (simp add: sample_request_def)
  have wrong: "\<exists>k. query_key (sample_request (Some (u ''guess'')) (Some (Inr sample_deck))) = Some k \<and>
      k \<noteq> required_key sample_env"
    by (simp add: sample_request_def sample_env_def u_def)
  have right: "query_key (sample_request (Some (u ''s3cret'')) (Some (Inr sample_deck))) =
      Some (required_key sample_env)"
    and sub: "submitted (sample_request (Some (u ''s3cret'')) (Some (Inr sample_deck)))"
    and up: "uploaded (sample_request (Some (u ''s3cret'')) (Some (Inr sample_deck))) \<noteq> None"
    by (simp_all add: sample_request_def sample_env_def)
  note a = access_guard_exact
    [of sample_env "sample_request None (Some (Inr sample_deck))" Map.empty]
  note b = access_guard_exact
    [of sample_env "sample_request (Some (u ''guess'')) (Some (Inr sample_deck))" Map.empty]
  note c = access_guard_exact
    [of sample_env "sample_request (Some (u ''s3cret'')) (Some (Inr sample_deck))" Map.empty]
  have "run_script sample_env (sample_request None (Some (Inr sample_deck))) Map.empty =
     ([St_error access_denied_message], Stopped, Map.empty)"
    using a missing by blast
  moreover have "run_script sample_env
      (sample_request (Some (u ''guess'')) (Some (Inr sample_deck))) Map.empty =
     ([St_error access_denied_message], Stopped, Map.empty)"
    using b wrong by blast
  moreover have "fst (snd (run_script sample_env
     (sample_request (Some (u ''s3cret'')) (Some (Inr sample_deck))) Map.empty)) \<noteq> Stopped"
    using c right by auto
  moreover have "Run_extract \<in> set (fst (run_script sample_env
     (sample_request (Some (u ''s3cret'')) (Some (Inr sample_deck))) Map.empty))"
    using c right sub up by blast
  ultimately show ?thesis by blast
qed

text \<open>
  Claim C9. When the form is submitted without an uploaded file, the run shows one error
  message and nothing else, calls no pipeline stage (neither Extractor nor Enhancer nor
  Builder) and writes no file; with the right key the message is the request to upload a
  presentation file and the run ends normally.
\<close>

theorem missing_upload_reported:
  "submitted req \<Longrightarrow> uploaded req = None \<Longrightarrow>
   (query_key req = Some (required_key ev) \<longrightarrow>
      run_script ev req fs = ([St_error missing_upload_message], Completed, fs)) \<and>
   (\<exists>m. fst (run_script ev req fs) = [St_error m]) \<and>
   \<not> list_ex is_stage_call (fst (run_script ev req fs)) \<and>
   snd (snd (run_script ev req fs)) = fs"
  by (simp add: run_script_def submit_handler_def access_denied_def)

theorem missing_upload_reported_witness:
  "submitted (sample_request (Some (u ''s3cret'')) None) \<and>
   uploaded (sample_request (Some (u ''s3cret'')) None) = None \<and>
   run_script sample_env (sample_request (Some (u ''s3cret'')) None) Map.empty =
     ([St_error missing_upload_message], Completed, Map.empty)"
proof -
  have sub: "submitted (sample_request (Some (u ''s3cret'')) None)"
    and up: "uploaded (sample_request (Some (u ''s3cret'')) None) = None"
    and key: "query_key (sample_request (Some (u ''s3cret'')) None) = Some (required_key sample_env)"
    by (simp_all add: sample_request_def sample_env_def)
  show ?thesis
    using missing_upload_reported [OF sub up, of sample_env Map.empty] sub up key by blast
qed

lemma json_to_ppt_Inl:
  "json_to_ppt fmt we data tmp fs = Inl e \<longleftrightarrow>
   build_presentation fmt data = Inl e \<or>
   (\<exists>prs. build_presentation fmt data = Inr prs \<and> we tmp = Some e)"
  by (cases "build_presentation fmt data"; cases "we tmp")
    (auto simp: json_to_ppt_def save_def)

lemma submit_handler_completed:
  assumes "uploaded req = Some f" and "extract_ppt_text f = Inr extracted"
  shows "submit_handler ev req fs =
     ([Run_extract, St_success extracted_message, St_json_extracted extracted]
        @ fst (enhance_and_build ev req extracted fs),
      Completed, snd (enhance_and_build ev req extracted fs))"
  using assms by (simp add: submit_handler_def Let_def split: prod.splits)

text \<open>
  Claim C5. In the enhancement-and-build phase, whichever step fails first (the call of
  the service, the parsing of the reply, the creation of the temporary file, the
  construction of the presentation or its saving), the events of the phase end with the
  one message that shows the exception caught, after the calls made so far, and no
  presentation is saved. When no step fails the phase ends with the download button. In every case
  at most one error is shown, the Enhancer is called once, the parser and the Builder at
  most once, and the handler of an extracted upload ends normally: no exception of the
  phase leaves the handler.
\<close>

theorem failures_caught_once:
  "let gen = generate_improved_json (chat ev) (json_dumps ev) (str_int ev)
               (topic req) extracted (slide_count req) (style req);
       evs = fst (enhance_and_build ev req extracted fs);
       fs' = snd (enhance_and_build ev req extracted fs)
   in (\<forall>e. gen = Inl e \<longrightarrow> evs = [Run_enhance, St_exception e] \<and> fs' = fs) \<and>
      (\<forall>js e. gen = Inr js \<and> json_loads ev js = Inl e \<longrightarrow>
         evs = [Run_enhance, Run_loads, St_exception e] \<and> fs' = fs) \<and>
      (\<forall>js data e. gen = Inr js \<and> json_loads ev js = Inr data \<and> temp_file ev = Inl e \<longrightarrow>
         evs = [Run_enhance, Run_loads, St_success json_ready_message, St_json_data data,
                St_exception e] \<and> fs' = fs) \<and>
      (\<forall>js data tmp e. gen = Inr js \<and> json_loads ev js = Inr data \<and> temp_file ev = Inr tmp \<and>
         (build_presentation (str_of ev) data = Inl e \<or>
          (\<exists>prs. build_presentation (str_of ev) data = Inr prs \<and> write_error ev tmp = Some e)) \<longrightarrow>
         evs = [Run_enhance, Run_loads, St_success json_ready_message, St_json_data data,
                Run_build, St_exception e] \<and> fs' = fs) \<and>
      (\<forall>js data tmp prs. gen = Inr js \<and> json_loads ev js = Inr data \<and> temp_file ev = Inr tmp \<and>
         build_presentation (str_of ev) data = Inr prs \<and> write_error ev tmp = None \<longrightarrow>
         evs = [Run_enhance, Run_loads, St_success json_ready_message, St_json_data data,
                Run_build, St_download_button prs download_name] \<and> fs' = fs(tmp \<mapsto> prs)) \<and>
      length (filter is_error_shown evs) \<le> 1 \<and>
      count_list evs Run_enhance = 1 \<and>
      count_list evs Run_loads \<le> 1 \<and>
      count_list evs Run_build \<le> 1 \<and>
      (\<forall>f. uploaded req = Some f \<and> extract_ppt_text f = Inr extracted \<longrightarrow>
         submit_handler ev req fs =
           ([Run_extract, St_success extracted_message, St_json_extracted extracted] @ evs,
            Completed, fs'))"
proof -
  define gen where "gen = generate_improved_json (chat ev) (json_dumps ev) (str_int ev)
               (topic req) extracted (slide_count req) (style req)"
  define evs where "evs = fst (enhance_and_build ev req extracted fs)"
  define fs' where "fs' = snd (enhance_and_build ev req extracted fs)"
  note defs = enhance_and_build_def try_body_def gen_def [symmetric] evs_def fs'_def
  have c1: "evs = [Run_enhance, St_exception e] \<and> fs' = fs" if "gen = Inl e" for e
    using that by (simp add: defs)
  have c2: "evs = [Run_enhance, Run_loads, St_exception e] \<and> fs' = fs"
    if "gen = Inr js \<and> json_loads ev js = Inl e" for js e
    using that by (simp add: defs)
  have c3: "evs = [Run_enhance, Run_loads, St_success json_ready_message, St_json_data data,
                St_exception e] \<and> fs' = fs"
    if "gen = Inr js \<and> json_loads ev js = Inr data \<and> temp_file ev = Inl e" for js data e
    using that by (simp add: defs)
  have c4: "evs = [Run_enhance, Run_loads, St_success json_ready_message, St_json_data data,
                Run_build, St_exception e] \<and> fs' = fs"
    if "gen = Inr js \<and> json_loads ev js = Inr data \<and> temp_file ev = Inr tmp \<and>
         (build_presentation (str_of ev) data = Inl e \<or>
          (\<exists>prs. build_presentation (str_of ev) data = Inr prs \<and> write_error ev tmp = Some e))"
    for js data tmp e
  proof -
    have "json_to_ppt (str_of ev) (write_error ev) data tmp fs = Inl e"
      using that json_to_ppt_Inl [of "str_of ev" "write_error ev" data tmp fs e] by blast
    then show ?thesis
      using that by (simp add: defs)
  qed
  have c5: "evs = [Run_enhance, Run_loads, St_success json_ready_message, St_json_data data,
                Run_build, St_download_button prs download_name] \<and> fs' = fs(tmp \<mapsto> prs)"
    if "gen = Inr js \<and> json_loads ev js = Inr data \<and> temp_file ev = Inr tmp \<and>
         build_presentation (str_of ev) data = Inr prs \<and> write_error ev tmp = None"
    for js data tmp prs
  proof -
    have "json_to_ppt (str_of ev) (write_error ev) data tmp fs = Inr (tmp, fs(tmp \<mapsto> prs))"
      using that json_to_ppt_Inr [of "str_of ev" "write_error ev" data tmp fs] by blast
    then show ?thesis
      using that by (simp add: defs)
  qed
  have bounds: "length (filter is_error_shown evs) \<le> 1 \<and> count_list evs Run_enhance = 1 \<and>
      count_list evs Run_loads \<le> 1 \<and> count_list evs Run_build \<le> 1"
  proof (cases gen)
    case (Inl e)
    then show ?thesis using c1 by simp
  next
    case js: (Inr js)
    show ?thesis
    proof (cases "json_loads ev js")
      case (Inl e)
      then show ?thesis using c2 js by simp
    next
      case data: (Inr data)
      show ?thesis
      proof (cases "temp_file ev")
        case (Inl e)
        then show ?thesis using c3 js data by simp
      next
        case tmp: (Inr tmp)
        show ?thesis
        proof (cases "build_presentation (str_of ev) data")
          case (Inl e)
          then show ?thesis using c4 [of js data tmp e] js data tmp by simp
        next
          case prs: (Inr prs)
          show ?thesis
          proof (cases "write_error ev tmp")
            case None
            then show ?thesis using c5 [of js data tmp prs] js data tmp prs by simp
          next
            case (Some e)
            then show ?thesis using c4 [of js data tmp e] js data tmp prs by simp
          qed
        qed
      qed
    qed
  qed
  have handler: "submit_handler ev req fs =
      ([Run_extract, St_success extracted_message, St_json_extracted extracted] @ evs,
       Completed, fs')"
    if "uploaded req = Some f \<and> extract_ppt_text f = Inr extracted" for f
    using that submit_handler_completed [of req f extracted ev fs] by (simp add: evs_def fs'_def)
  show ?thesis
    unfolding Let_def gen_def [symmetric] evs_def [symmetric] fs'_def [symmetric]
  proof (intro conjI allI impI)
    show "length (filter is_error_shown evs) \<le> 1" using bounds by simp
    show "count_list evs Run_enhance = 1" using bounds by simp
    show "count_list evs Run_loads \<le> 1" using bounds by simp
    show "count_list evs Run_build \<le> 1" using bounds by simp
  qed (use c1 c2 c3 c4 c5 handler in \<open>fast+\<close>)
qed

theorem failures_caught_once_witness:
  "\<exists>extracted.
     extract_ppt_text (Inr sample_deck) = Inr extracted \<and>
     submit_handler sample_env (sample_request (Some (u ''s3cret'')) (Some (Inr sample_deck)))
         Map.empty =
       ([Run_extract, St_success extracted_message, St_json_extracted extracted,
         Run_enhance, Run_loads,
         St_exception (External (u ''Expecting value: line 1 column 1 (char 0)''))],
        Completed, Map.empty)"
proof -
  define req where "req = sample_request (Some (u ''s3cret'')) (Some (Inr sample_deck))"
  define extracted where "extracted = map spec_record (slides sample_deck)"
  define js where "js = strip (u '' Sure, here is the deck! '')"
  have "\<not> list_ex title_without_text (slides sample_deck)"
    by (simp add: sample_deck_def title_without_text_def is_title_placeholder_def text_sp_def)
  then have ex: "extract_ppt_text (Inr sample_deck) = Inr extracted"
    by (simp add: extracted_def extract_ppt_text_eq)
  have up: "uploaded req = Some (Inr sample_deck)"
    by (simp add: req_def sample_request_def)
  have gen: "generate_improved_json (chat sample_env) (json_dumps sample_env) (str_int sample_env)
               (topic req) extracted (slide_count req) (style req) = Inr js"
    by (simp add: generate_improved_json_def sample_env_def js_def)
  have loads: "json_loads sample_env js =
      Inl (External (u ''Expecting value: line 1 column 1 (char 0)''))"
    by (simp add: sample_env_def)
  note T = failures_caught_once [of sample_env req extracted Map.empty, unfolded Let_def]
  have evs: "fst (enhance_and_build sample_env req extracted Map.empty) =
      [Run_enhance, Run_loads,
       St_exception (External (u ''Expecting value: line 1 column 1 (char 0)''))]"
    and fs: "snd (enhance_and_build sample_env req extracted Map.empty) = Map.empty"
    using T gen loads by blast+
  have "submit_handler sample_env req Map.empty =
      ([Run_extract, St_success extracted_message, St_json_extracted extracted]
         @ fst (enhance_and_build sample_env req extracted Map.empty),
       Completed, snd (enhance_and_build sample_env req extracted Map.empty))"
    using T up ex by blast
  then have "submit_handler sample_env req Map.empty =
      ([Run_extract, St_success extracted_message, St_json_extracted extracted,
        Run_enhance, Run_loads,
        St_exception (External (u ''Expecting value: line 1 column 1 (char 0)''))],
       Completed, Map.empty)"
    using evs fs by simp
  then show ?thesis
    using ex by (auto simp: req_def)
qed

end
